theory Spec2Isabelle
  imports Main
begin

section \<open>The parse tree\<close>

text \<open>
  \<^verbatim>\<open>parse\<close> builds nested JavaScript arrays whose elements are strings and arrays:
  \<^verbatim>\<open>'a{b {c}}'\<close> becomes \<^verbatim>\<open>['a', ['b ', ['c'], ''], '']\<close>.
  An array is an \<open>item list\<close>. Strings are lists of \<open>char\<close>, so the model covers the
  templates whose code units are below 256.
\<close>

datatype item = Str string | Node "item list"

type_synonym tree = "item list"

text \<open>
  What the code throws: \<^verbatim>\<open>new Error(message)\<close>, and the engine's own errors:
  a TypeError for a property read on \<^verbatim>\<open>undefined\<close> or \<^verbatim>\<open>null\<close> and for a call of
  a value that is not a function, a ReferenceError for a variable that is not bound, and a
  RangeError when the recursion is deeper than the call stack allows.
\<close>

datatype error = Error string | TypeError | ReferenceError | RangeError

text \<open>
  What running a piece of code gives: its result, an exception, or \<open>Unmodelled\<close> where
  the model does not give the code a meaning.
\<close>

datatype 'a outcome = Done 'a | Thrown error | Unmodelled

fun and_then :: "'a outcome \<Rightarrow> ('a \<Rightarrow> 'b outcome) \<Rightarrow> 'b outcome" where
  "and_then (Done x) f = f x"
| "and_then (Thrown e) f = Thrown e"
| "and_then Unmodelled f = Unmodelled"

text \<open>
  \<^verbatim>\<open>String(array)\<close>, that is \<^verbatim>\<open>array.join(',')\<close>: the elements' strings separated
  by commas, nested arrays joined the same way.
\<close>

fun join_comma :: "string list \<Rightarrow> string" where
  "join_comma [] = []"
| "join_comma [s] = s"
| "join_comma (s # t # ts) = s @ '','' @ join_comma (t # ts)"

fun item_to_string :: "item \<Rightarrow> string" where
  "item_to_string (Str s) = s"
| "item_to_string (Node xs) = join_comma (map item_to_string xs)"

section \<open>Data values\<close>

text \<open>
  The data a render function is called with: the values of JSON and \<^verbatim>\<open>undefined\<close>.
  Numbers are the integers. An object is the list of its own enumerable properties in the
  order in which \<^verbatim>\<open>for (key in obj)\<close> visits them, one entry for each key.
\<close>

datatype jsval =
    Undefined
  | VNull
  | VBool bool
  | VNum int
  | VStr string
  | VArr "jsval list"
  | VObj "(string \<times> jsval) list"

text \<open>\<^verbatim>\<open>!value\<close>.\<close>

fun falsy :: "jsval \<Rightarrow> bool" where
  "falsy Undefined = True"
| "falsy VNull = True"
| "falsy (VBool b) = (\<not> b)"
| "falsy (VNum n) = (n = 0)"
| "falsy (VStr s) = (s = [])"
| "falsy (VArr xs) = False"
| "falsy (VObj kvs) = False"

fun show_nat :: "nat \<Rightarrow> string" where
  "show_nat n =
     (if n < 10 then [''0123456789'' ! n]
      else show_nat (n div 10) @ [''0123456789'' ! (n mod 10)])"

definition show_int :: "int \<Rightarrow> string" where
  "show_int i = (if i < 0 then ''-'' @ show_nat (nat (- i)) else show_nat (nat i))"

text \<open>
  \<^verbatim>\<open>String(value)\<close>, and the string an array element contributes to \<^verbatim>\<open>join\<close>
  (\<^verbatim>\<open>undefined\<close> and \<^verbatim>\<open>null\<close> contribute the empty string).
\<close>

fun to_string :: "jsval \<Rightarrow> string" where
  "to_string Undefined = ''undefined''"
| "to_string VNull = ''null''"
| "to_string (VBool b) = (if b then ''true'' else ''false'')"
| "to_string (VNum n) = show_int n"
| "to_string (VStr s) = s"
| "to_string (VArr xs) =
     join_comma (map (\<lambda>x. if x = Undefined \<or> x = VNull then [] else to_string x) xs)"
| "to_string (VObj kvs) = ''[object Object]''"

definition join_string :: "jsval \<Rightarrow> string" where
  "join_string x = (if x = Undefined \<or> x = VNull then [] else to_string x)"

text \<open>
  The names of the members of \<^verbatim>\<open>Object.prototype\<close>, which a property read finds on
  every object that has no own property of that name.
\<close>

definition object_prototype_names :: "string list" where
  "object_prototype_names =
     [''constructor'', ''toString'', ''toLocaleString'', ''valueOf'', ''hasOwnProperty'',
      ''isPrototypeOf'', ''propertyIsEnumerable'', ''__proto__'', ''__defineGetter__'',
      ''__defineSetter__'', ''__lookupGetter__'', ''__lookupSetter__'']"

text \<open>
  \<^verbatim>\<open>obj[key]\<close> for a string key. The own properties are the entries of an object, the
  elements and the length of an array, the characters and the length of a string. A key
  that is no own property is looked up in the prototype objects: on an object the read gives
  \<^verbatim>\<open>undefined\<close> unless the key names a member of \<^verbatim>\<open>Object.prototype\<close>. Those
  members are functions and objects of the engine, which \<open>jsval\<close> does not have, so such
  a read is \<open>Unmodelled\<close>; so is a read of a key that is no own property of an array, a
  string, a number or a boolean, whose prototype objects differ between engines. Reading a
  property of \<^verbatim>\<open>undefined\<close> or \<^verbatim>\<open>null\<close> throws.
\<close>

definition index_of_key :: "string \<Rightarrow> nat \<Rightarrow> nat option" where
  "index_of_key key n = find (\<lambda>i. show_nat i = key) [0..<n]"

fun get_prop :: "jsval \<Rightarrow> string \<Rightarrow> jsval outcome" where
  "get_prop Undefined key = Thrown TypeError"
| "get_prop VNull key = Thrown TypeError"
| "get_prop (VBool b) key = Unmodelled"
| "get_prop (VNum n) key = Unmodelled"
| "get_prop (VStr s) key =
     (if key = ''length'' then Done (VNum (int (length s)))
      else case index_of_key key (length s) of
             None \<Rightarrow> Unmodelled
           | Some i \<Rightarrow> Done (VStr [s ! i]))"
| "get_prop (VArr xs) key =
     (if key = ''length'' then Done (VNum (int (length xs)))
      else case index_of_key key (length xs) of
             None \<Rightarrow> Unmodelled
           | Some i \<Rightarrow> Done (xs ! i))"
| "get_prop (VObj kvs) key =
     (case map_of kvs key of
        Some v \<Rightarrow> Done v
      | None \<Rightarrow> if key \<in> set object_prototype_names then Unmodelled else Done Undefined)"

section \<open>The generated code\<close>

text \<open>
  The macros return JavaScript text, and \<^verbatim>\<open>wrapTemplate\<close> hands the text to
  \<^verbatim>\<open>new Function\<close>. The model keeps the text as a list of statements: one constructor
  for each form of statement and expression that the bundled macros write, and \<open>Raw\<close> for
  any other text (what a macro of the caller may return, and the white space between the
  statements). \<open>emit\<close> is the text a list stands for, and \<open>exec\<close> below is what the engine
  does when it runs that text.
\<close>

datatype expr =
    PathVar
  | ItemPath
  | Lit string
  | Plus expr expr
  | AddToPath expr expr
  | Resolve expr
  | ResolveB expr

datatype stmt =
    Push expr
  | Assign expr
  | PlusAssign expr
  | Scope "stmt list"
  | IfDefined expr "stmt list"
  | EachCall expr "stmt list"
  | Raw string

type_synonym code = "stmt list"

fun emit_expr :: "expr \<Rightarrow> string" where
  "emit_expr PathVar = ''path''"
| "emit_expr ItemPath = ''__itemPath''"
| "emit_expr (Lit t) = [CHR 0x22] @ t @ [CHR 0x22]"
| "emit_expr (Plus a b) = emit_expr a @ '' + '' @ emit_expr b"
| "emit_expr (AddToPath a b) = ''addToPath('' @ emit_expr a @ '', '' @ emit_expr b @ '')''"
| "emit_expr (Resolve a) = ''resolve('' @ emit_expr a @ '', data)''"
| "emit_expr (ResolveB a) = ''resolve('' @ emit_expr a @ '')''"

fun emit_stmt :: "stmt \<Rightarrow> string"
  and emit :: "code \<Rightarrow> string" where
  "emit_stmt (Push e) = ''__out.push('' @ emit_expr e @ '');''"
| "emit_stmt (Assign e) = ''path = '' @ emit_expr e @ '';''"
| "emit_stmt (PlusAssign e) = ''path += '' @ emit_expr e @ '';''"
| "emit_stmt (Scope body) =
     ''(function (path) {'' @ [CHR 0x0A] @ emit body @ [CHR 0x0A] @ ''}(path));''"
| "emit_stmt (IfDefined e body) =
     ''if (typeof '' @ emit_expr e @ '' !== '' @ [CHR 0x22] @ ''undefined'' @ [CHR 0x22]
       @ '') {'' @ [CHR 0x0A] @ emit body @ ''}''"
| "emit_stmt (EachCall e body) =
     ''each('' @ emit_expr e @ '', function (__itemPath) {'' @ emit body @ ''});''"
| "emit_stmt (Raw s) = s"
| "emit [] = []"
| "emit (x # xs) = emit_stmt x @ emit xs"

section \<open>Options and macros\<close>

text \<open>
  A macro is a function of the node and of the \<^verbatim>\<open>transform\<close> callback and returns
  code, or throws. It gets the node after \<^verbatim>\<open>parseArg\<close> has removed the macro's name.
  \<^verbatim>\<open>parseArg\<close> trims the first slot of a node in place; no bundled macro reads a child
  again after it has transformed it, and the macros of the model cannot.

  The options of \<^verbatim>\<open>compile\<close>: the macros of the caller, the file name for the messages,
  and \<^verbatim>\<open>includeRuntime\<close> (the field \<^verbatim>\<open>file\<close> is \<open>file_name\<close> here). Options that are left
  out have no macros and no other field.
\<close>

type_synonym macro = "tree \<Rightarrow> (tree \<Rightarrow> error + code) \<Rightarrow> error + code"

record options =
  macros :: "string \<rightharpoonup> macro"
  file_name :: "string option"
  includeRuntime :: "bool option"

definition no_options :: options where
  "no_options = \<lparr>macros = Map.empty, file_name = None, includeRuntime = None\<rparr>"

section \<open>throwError and parse (src/compiler.js)\<close>

text \<open>
  \<^verbatim>\<open>throw new Error(message + '\nFile: ' + options.file)\<close>. A missing \<^verbatim>\<open>file\<close>
  concatenates as \<^verbatim>\<open>undefined\<close>.
\<close>

definition file_text :: "string option \<Rightarrow> string" where
  "file_text f = (case f of None \<Rightarrow> ''undefined'' | Some name \<Rightarrow> name)"

definition throwError :: "string \<Rightarrow> options \<Rightarrow> error + 'a" where
  "throwError message opts =
     Inl (Error (message @ [CHR 0x0A] @ ''File: '' @ file_text (file_name opts)))"

text \<open>
  \<^verbatim>\<open>current[current.length - 1] += str[i]\<close>. The last slot of \<open>current\<close> is a string
  whenever \<^verbatim>\<open>parse\<close> gets here (lemma \<open>parse_loop_ends_str\<close> below). The other two
  equations write out what the assignment does on an array that ends with an array (the
  array is coerced to a string) and on an empty array (the assignment sets the property
  \<^verbatim>\<open>-1\<close>, which is not an element).
\<close>

fun add_to_last :: "tree \<Rightarrow> char \<Rightarrow> tree" where
  "add_to_last [] c = []"
| "add_to_last [x] c = [Str (item_to_string x @ [c])]"
| "add_to_last (x # y # ys) c = x # add_to_last (y # ys) c"

text \<open>
  The \<^verbatim>\<open>for\<close> loop of \<^verbatim>\<open>parse\<close> over the characters that are left. The stack is a
  list with its top at the head. \<^verbatim>\<open>stack.pop()\<close> on an empty stack is \<^verbatim>\<open>undefined\<close>,
  and \<^verbatim>\<open>parent.push(current)\<close> then throws a TypeError.
\<close>

fun parse_loop :: "string \<Rightarrow> tree \<Rightarrow> tree list \<Rightarrow> error + (tree \<times> tree list)" where
  "parse_loop [] current stack = Inr (current, stack)"
| "parse_loop (c # cs) current stack =
     (if c = CHR ''{'' then parse_loop cs [Str ''''] (current # stack)
      else if c = CHR ''}'' then
        (case stack of
           [] \<Rightarrow> Inl TypeError
         | parent # stack' \<Rightarrow> parse_loop cs (parent @ [Node current, Str '''']) stack')
      else parse_loop cs (add_to_last current c) stack)"

text \<open>
  \<^verbatim>\<open>parse (str, options)\<close>. \<open>results\<close> and \<open>current\<close> are the same array whenever the
  stack is empty, so the array returned is \<open>current\<close>.
\<close>

definition parse :: "string \<Rightarrow> options \<Rightarrow> error + tree" where
  "parse str opts =
     (case parse_loop str [Str ''''] [] of
        Inl e \<Rightarrow> Inl e
      | Inr (current, stack) \<Rightarrow>
          if length stack \<noteq> 0 then throwError ''Unmatched curly bracket'' opts
          else Inr current)"

section \<open>Balanced braces and the inverse of parse\<close>

text \<open>
  The nesting depth after a string, starting at depth \<open>d\<close>; \<open>None\<close> when a \<^verbatim>\<open>}\<close>
  closes nothing. A template has balanced braces when the scan ends at depth 0, an
  unmatched \<^verbatim>\<open>{\<close> when it ends above 0, and an extra \<^verbatim>\<open>}\<close> when it is \<open>None\<close>.
\<close>

fun depth_scan :: "string \<Rightarrow> nat \<Rightarrow> nat option" where
  "depth_scan [] d = Some d"
| "depth_scan (c # cs) d =
     (if c = CHR ''{'' then depth_scan cs (Suc d)
      else if c = CHR ''}'' then (case d of 0 \<Rightarrow> None | Suc d' \<Rightarrow> depth_scan cs d')
      else depth_scan cs d)"

definition balanced :: "string \<Rightarrow> bool" where
  "balanced s = (depth_scan s 0 = Some 0)"

text \<open>
  The spec's reconstruction: the string slots in document order, every child array
  between a \<^verbatim>\<open>{\<close> and a \<^verbatim>\<open>}\<close>.
\<close>

fun unparse_item :: "item \<Rightarrow> string"
  and unparse :: "tree \<Rightarrow> string" where
  "unparse_item (Str s) = s"
| "unparse_item (Node xs) = ''{'' @ unparse xs @ ''}''"
| "unparse [] = []"
| "unparse (x # xs) = unparse_item x @ unparse xs"

text \<open>The text read so far, from the frames still open and the current one.\<close>

fun unparse_state :: "tree \<Rightarrow> tree list \<Rightarrow> string" where
  "unparse_state current [] = unparse current"
| "unparse_state current (parent # stack) = unparse_state parent stack @ ''{'' @ unparse current"

definition ends_str :: "tree \<Rightarrow> bool" where
  "ends_str t = (t \<noteq> [] \<and> (\<exists>s. last t = Str s))"

section \<open>helper (src/compiler.js)\<close>

text \<open>
  The characters that \<^verbatim>\<open>\s\<close> matches, among the code units below 256: tab, line feed,
  vertical tab, form feed, carriage return, space and no-break space.
\<close>

definition is_space :: "char \<Rightarrow> bool" where
  "is_space c = (c \<in> set [CHR 0x09, CHR 0x0A, CHR 0x0B, CHR 0x0C, CHR 0x0D, CHR 0x20, CHR 0xA0])"

text \<open>
  \<^verbatim>\<open>helper.parseArg\<close>: \<^verbatim>\<open>/^\S+/\<close> matches the longest run of characters at the start
  that are not white space (\<open>arg\<close> is empty when there is none), and the first slot keeps
  what follows the run, without its leading white space. The result is the argument and
  the node as the assignment to \<^verbatim>\<open>tree[0]\<close> leaves it. On a node whose first element
  is missing or is an array, \<^verbatim>\<open>tree[0].substr\<close> is not a function and the call throws.
\<close>

definition parseArg :: "tree \<Rightarrow> error + (string \<times> tree)" where
  "parseArg tree =
     (case tree of
        Str s # rest \<Rightarrow>
          (let arg = takeWhile (\<lambda>c. \<not> is_space c) s
           in Inr (arg, Str (dropWhile is_space (drop (length arg) s)) # rest))
      | _ \<Rightarrow> Inl TypeError)"

text \<open>\<^verbatim>\<open>helper.parsePath\<close>: \<^verbatim>\<open>helper.parseArg(tree) || ''\<close>.\<close>

definition parsePath :: "tree \<Rightarrow> error + (string \<times> tree)" where
  "parsePath tree = parseArg tree"

text \<open>
  \<^verbatim>\<open>helper.escapeJS\<close>: three global replacements, of \<^verbatim>\<open>"\<close>, of \<^verbatim>\<open>'\<close> and of
  the line feed, each by a backslash and a character.
\<close>

definition replace_char :: "char \<Rightarrow> string \<Rightarrow> string \<Rightarrow> string" where
  "replace_char c r s = concat (map (\<lambda>x. if x = c then r else [x]) s)"

definition escapeJS :: "string \<Rightarrow> string" where
  "escapeJS str =
     replace_char (CHR 0x0A) [CHR 0x5C, CHR ''n'']
       (replace_char (CHR 0x27) [CHR 0x5C, CHR 0x27]
         (replace_char (CHR 0x22) [CHR 0x5C, CHR 0x22] str))"

text \<open>\<^verbatim>\<open>helper.output\<close> (\<open>output_str\<close> here): nothing for the empty string, else \<^verbatim>\<open>__out.push("...");\<close>.\<close>

definition output_str :: "string \<Rightarrow> code" where
  "output_str str = (if str = [] then [] else [Push (Lit (escapeJS str))])"

text \<open>
  \<^verbatim>\<open>helper.transformTree\<close>. The \<^verbatim>\<open>each\<close> that it calls is the one of
  \<^verbatim>\<open>runtime.js\<close> (of the file itself in the bundled build); on an array it calls the
  function on the elements in index order, as the spec says of the iteration and as the
  bundled \<^verbatim>\<open>each\<close> does. The code of a string element is its \<^verbatim>\<open>output\<close>, the code
  of an array element is what \<^verbatim>\<open>transform\<close> returns for it, and an exception of
  \<^verbatim>\<open>transform\<close> ends the loop.
\<close>

fun transformTree :: "tree \<Rightarrow> (tree \<Rightarrow> error + code) \<Rightarrow> error + code" where
  "transformTree [] transform = Inr []"
| "transformTree (Str s # rest) transform =
     (case transformTree rest transform of
        Inl e \<Rightarrow> Inl e
      | Inr out' \<Rightarrow> Inr (output_str s @ out'))"
| "transformTree (Node item # rest) transform =
     (case transform item of
        Inl e \<Rightarrow> Inl e
      | Inr c \<Rightarrow>
          (case transformTree rest transform of
             Inl e \<Rightarrow> Inl e
           | Inr out' \<Rightarrow> Inr (c @ out')))"

text \<open>\<^verbatim>\<open>helper.keepPath\<close>: \<^verbatim>\<open>'(function (path) {\n' + code + '\n}(path));'\<close>.\<close>

definition keepPath :: "code \<Rightarrow> code" where
  "keepPath c = [Scope c]"

section \<open>nativeMacros (src/compiler.js)\<close>

definition macro_dot :: macro where
  "macro_dot tree transform =
     (case parsePath tree of
        Inl e \<Rightarrow> Inl e
      | Inr (p, tree') \<Rightarrow> Inr [Push (Resolve (AddToPath PathVar (Lit p)))])"

definition macro_arrow :: macro where
  "macro_arrow tree transform =
     (case parsePath tree of
        Inl e \<Rightarrow> Inl e
      | Inr (p, tree') \<Rightarrow>
          (case transformTree tree' transform of
             Inl e \<Rightarrow> Inl e
           | Inr body \<Rightarrow>
               Inr (keepPath ([Assign (AddToPath PathVar (Lit p)), Raw [CHR 0x0A]]
                              @ body @ [Raw [CHR 0x0A]]))))"

definition macro_has :: macro where
  "macro_has tree transform =
     (case parsePath tree of
        Inl e \<Rightarrow> Inl e
      | Inr (p, tree') \<Rightarrow>
          (case transformTree tree' transform of
             Inl e \<Rightarrow> Inl e
           | Inr body \<Rightarrow>
               Inr [IfDefined (Resolve (AddToPath PathVar (Lit p))) (body @ [Raw [CHR 0x0A]])]))"

definition macro_each :: macro where
  "macro_each tree transform =
     (case parsePath tree of
        Inl e \<Rightarrow> Inl e
      | Inr (p, tree') \<Rightarrow>
          (case transformTree tree' transform of
             Inl e \<Rightarrow> Inl e
           | Inr body \<Rightarrow>
               Inr (keepPath
                 [Assign (AddToPath PathVar (Lit p)), Raw [CHR 0x0A],
                  EachCall (Resolve PathVar)
                    (keepPath (Assign (AddToPath PathVar ItemPath) # body)
                     @ [Raw [CHR 0x0A]])])))"

definition macro_path :: macro where
  "macro_path tree transform =
     (case parsePath tree of
        Inl e \<Rightarrow> Inl e
      | Inr (p, tree') \<Rightarrow> Inr [Push (AddToPath PathVar (Lit p))])"

definition macro_out :: macro where
  "macro_out tree transform = transformTree tree transform"

definition nativeMacros :: "string \<rightharpoonup> macro" where
  "nativeMacros =
     [''.'' \<mapsto> macro_dot, ''->'' \<mapsto> macro_arrow, ''has'' \<mapsto> macro_has,
      ''each'' \<mapsto> macro_each, ''path'' \<mapsto> macro_path, ''out'' \<mapsto> macro_out]"

section \<open>compile (src/compiler.js)\<close>

text \<open>
  \<^verbatim>\<open>macros[macroName]\<close> and \<^verbatim>\<open>nativeMacros[macroName]\<close> are property reads on plain
  objects, and a name that is no own property is looked up in \<^verbatim>\<open>Object.prototype\<close>.
  Its members are truthy, so \<^verbatim>\<open>transform\<close> calls them as it calls a macro:
  \<^verbatim>\<open>constructor\<close> is \<^verbatim>\<open>Object\<close>, which returns the node it is given (the node's
  string is what the caller's \<^verbatim>\<open>out +=\<close> appends); \<^verbatim>\<open>toString\<close> returns
  \<^verbatim>\<open>[object Undefined]\<close>, since the file is in strict mode and the call has no
  receiver; the other functions throw a TypeError without a receiver, and
  \<^verbatim>\<open>__proto__\<close> is an object, whose call throws a TypeError.
\<close>

definition object_prototype :: "string \<rightharpoonup> macro" where
  "object_prototype name =
     (if name = ''constructor'' then Some (\<lambda>tree transform. Inr [Raw (item_to_string (Node tree))])
      else if name = ''toString'' then Some (\<lambda>tree transform. Inr [Raw ''[object Undefined]''])
      else if name \<in> set object_prototype_names
      then Some (\<lambda>tree transform. Inl TypeError)
      else None)"

definition get_macro :: "(string \<rightharpoonup> macro) \<Rightarrow> string \<Rightarrow> macro option" where
  "get_macro object name =
     (case object name of Some m \<Rightarrow> Some m | None \<Rightarrow> object_prototype name)"

text \<open>
  \<^verbatim>\<open>transform\<close>, the inner function of \<^verbatim>\<open>compile\<close>. A macro of the caller may call
  the callback on any node, so the recursion has no bound of its own: the first argument is
  the number of nested calls that the engine's stack still has room for, and a call beyond
  it is the engine's RangeError.
\<close>

fun transform :: "nat \<Rightarrow> options \<Rightarrow> tree \<Rightarrow> error + code" where
  "transform 0 opts tree = Inl RangeError"
| "transform (Suc n) opts tree =
     (case parseArg tree of
        Inl e \<Rightarrow> Inl e
      | Inr (macroName, tree') \<Rightarrow>
          (case (case get_macro (macros opts) macroName of
                   Some m \<Rightarrow> Some m
                 | None \<Rightarrow> get_macro nativeMacros macroName) of
             Some macro \<Rightarrow> macro tree' (transform n opts)
           | None \<Rightarrow>
               throwError (''Not a macro: '' @ [CHR 0x22] @ macroName @ [CHR 0x22]) opts))"

section \<open>The runtime of the bundled build (src/compiler.js, from line 780)\<close>

text \<open>\<^verbatim>\<open>path.split(/\./)\<close>.\<close>

fun split_dot :: "string \<Rightarrow> string list" where
  "split_dot [] = [[]]"
| "split_dot (c # cs) =
     (if c = CHR ''.'' then [] # split_dot cs
      else case split_dot cs of
             [] \<Rightarrow> [[c]]
           | part # parts \<Rightarrow> (c # part) # parts)"

text \<open>
  The \<^verbatim>\<open>while\<close> loop of \<^verbatim>\<open>resolve\<close>:
  \<^verbatim>\<open>while (parts.length > 0 && obj[parts[0]]) { obj = obj[parts[0]]; parts.shift(); }\<close>
\<close>

fun resolve_loop :: "jsval \<Rightarrow> string list \<Rightarrow> (jsval \<times> string list) outcome" where
  "resolve_loop obj [] = Done (obj, [])"
| "resolve_loop obj (part # parts) =
     and_then (get_prop obj part) (\<lambda>v.
       if falsy v then Done (obj, part # parts) else resolve_loop v parts)"

text \<open>
  \<^verbatim>\<open>resolve (path)\<close>; \<open>data\<close> is the variable of the render function that the inlined
  \<^verbatim>\<open>resolve\<close> reads. An argument that is not a string has no \<^verbatim>\<open>split\<close>.
\<close>

definition resolve :: "jsval \<Rightarrow> jsval \<Rightarrow> jsval outcome" where
  "resolve data path_arg =
     (case path_arg of
        VStr p \<Rightarrow>
          and_then (resolve_loop data (filter (\<lambda>part. part \<noteq> []) (split_dot p)))
            (\<lambda>(obj, parts). if length parts > 0 then Done Undefined else Done obj)
      | _ \<Rightarrow> Thrown TypeError)"

text \<open>
  \<^verbatim>\<open>each (obj, iterator)\<close>. The iterator is a function of the key, the value and the
  state of the caller. The \<^verbatim>\<open>for\<close> loop over an array:
\<close>

function each_array ::
  "jsval list \<Rightarrow> nat \<Rightarrow> (jsval \<Rightarrow> jsval \<Rightarrow> 's \<Rightarrow> 's outcome) \<Rightarrow> 's \<Rightarrow> 's outcome" where
  "each_array obj i iterator s =
     (if i < length obj then
        and_then (iterator (VNum (int i)) (obj ! i) s) (each_array obj (Suc i) iterator)
      else Done s)"
  by pat_completeness auto
termination
  by (relation "measure (\<lambda>(obj, i, iterator, s). length obj - i)") auto

text \<open>
  The keys that \<^verbatim>\<open>for (key in obj)\<close> visits: the entries of an object
  (\<^verbatim>\<open>Object.prototype\<close> has no enumerable property), the indices of a string; a number
  or a boolean has none.
\<close>

fun for_in_keys :: "jsval \<Rightarrow> string list" where
  "for_in_keys (VObj kvs) = map fst kvs"
| "for_in_keys (VStr s) = map show_nat [0..<length s]"
| "for_in_keys (VArr xs) = map show_nat [0..<length xs]"
| "for_in_keys v = []"

text \<open>
  \<^verbatim>\<open>obj.hasOwnProperty(key)\<close>. The method is itself a property read on \<open>obj\<close>: an
  object with an own entry named \<^verbatim>\<open>hasOwnProperty\<close> gives that entry, a data value,
  and calling it throws a TypeError.
\<close>

fun has_own_property :: "jsval \<Rightarrow> string \<Rightarrow> error + bool" where
  "has_own_property (VObj kvs) key =
     (case map_of kvs ''hasOwnProperty'' of
        Some v \<Rightarrow> Inl TypeError
      | None \<Rightarrow> Inr (key \<in> set (map fst kvs)))"
| "has_own_property (VStr s) key =
     Inr (key = ''length'' \<or> index_of_key key (length s) \<noteq> None)"
| "has_own_property (VArr xs) key =
     Inr (key = ''length'' \<or> index_of_key key (length xs) \<noteq> None)"
| "has_own_property (VBool b) key = Inr False"
| "has_own_property (VNum n) key = Inr False"
| "has_own_property Undefined key = Inl TypeError"
| "has_own_property VNull key = Inl TypeError"

fun each_keys ::
  "jsval \<Rightarrow> string list \<Rightarrow> (jsval \<Rightarrow> jsval \<Rightarrow> 's \<Rightarrow> 's outcome) \<Rightarrow> 's \<Rightarrow> 's outcome" where
  "each_keys obj [] iterator s = Done s"
| "each_keys obj (key # keys) iterator s =
     (case has_own_property obj key of
        Inl e \<Rightarrow> Thrown e
      | Inr False \<Rightarrow> each_keys obj keys iterator s
      | Inr True \<Rightarrow>
          and_then (get_prop obj key) (\<lambda>v.
            and_then (iterator (VStr key) v s) (each_keys obj keys iterator)))"

definition each :: "jsval \<Rightarrow> (jsval \<Rightarrow> jsval \<Rightarrow> 's \<Rightarrow> 's outcome) \<Rightarrow> 's \<Rightarrow> 's outcome" where
  "each obj iterator s =
     (if falsy obj then Done s
      else case obj of
             VArr xs \<Rightarrow> each_array xs 0 iterator s
           | _ \<Rightarrow> each_keys obj (for_in_keys obj) iterator s)"

section \<open>Running the generated code\<close>

text \<open>
  The two variables of a render function: \<^verbatim>\<open>path\<close> and the array \<^verbatim>\<open>__out\<close>.
\<close>

record state =
  path :: jsval
  out :: "jsval list"

text \<open>
  The functions of \<^verbatim>\<open>runtime.js\<close> that the code written by src/compiler.js calls.
  The file is not among the sources, so the three are parameters:
  \<^verbatim>\<open>resolve(path, data)\<close> and \<^verbatim>\<open>addToPath(path, item)\<close> are functions of their
  arguments, and \<^verbatim>\<open>each(value, iterator)\<close> is a function of the value, of the iterator
  and of the state of the render function, which the iterator changes.
\<close>

record runtime =
  rt_resolve :: "jsval \<Rightarrow> jsval \<Rightarrow> jsval"
  rt_addToPath :: "jsval \<Rightarrow> jsval \<Rightarrow> jsval"
  rt_each :: "jsval \<Rightarrow> (jsval \<Rightarrow> jsval \<Rightarrow> state \<Rightarrow> state outcome) \<Rightarrow> state \<Rightarrow> state outcome"

text \<open>
  The string that the text between two double quotes denotes. The macros splice a path
  into the quotes as it is and \<^verbatim>\<open>escapeJS\<close> leaves backslashes alone, so the text may
  hold anything: the four escapes below are decoded, and a text with a bare double quote,
  a line break or another escape is not given a meaning.
\<close>

fun decode_literal :: "string \<Rightarrow> string option" where
  "decode_literal [] = Some []"
| "decode_literal (c # cs) =
     (if c = CHR 0x5C then
        (case cs of
           [] \<Rightarrow> None
         | d # ds \<Rightarrow>
             if d = CHR 0x22 \<or> d = CHR 0x27 \<or> d = CHR 0x5C
             then map_option (\<lambda>r. d # r) (decode_literal ds)
             else if d = CHR ''n'' then map_option (\<lambda>r. CHR 0x0A # r) (decode_literal ds)
             else None)
      else if c = CHR 0x22 \<or> c = CHR 0x0A \<or> c = CHR 0x0D then None
      else map_option (\<lambda>r. c # r) (decode_literal cs))"

text \<open>
  \<^verbatim>\<open>a + b\<close>: the concatenation of the two strings when one operand is a string, an
  array or an object, the sum of two numbers; the other sums are not modelled.
\<close>

fun stringy :: "jsval \<Rightarrow> bool" where
  "stringy (VStr s) = True"
| "stringy (VArr xs) = True"
| "stringy (VObj kvs) = True"
| "stringy v = False"

definition js_plus :: "jsval \<Rightarrow> jsval \<Rightarrow> jsval outcome" where
  "js_plus a b =
     (if stringy a \<or> stringy b then Done (VStr (to_string a @ to_string b))
      else case (a, b) of
             (VNum x, VNum y) \<Rightarrow> Done (VNum (x + y))
           | _ \<Rightarrow> Unmodelled)"

text \<open>
  The value of an expression. \<open>rt\<close> is \<open>Some\<close> of the runtime functions for a render
  function of src/compiler.js, and \<open>None\<close> for a render function of the bundled build,
  where \<^verbatim>\<open>resolve\<close> and \<^verbatim>\<open>each\<close> are the functions above and \<^verbatim>\<open>addToPath\<close> is not
  bound.
  \<open>ip\<close> is \<^verbatim>\<open>__itemPath\<close>, bound inside the function that \<^verbatim>\<open>each\<close> calls.
\<close>

fun eval_expr :: "runtime option \<Rightarrow> jsval \<Rightarrow> jsval option \<Rightarrow> jsval \<Rightarrow> expr \<Rightarrow> jsval outcome" where
  "eval_expr rt data ip p PathVar = Done p"
| "eval_expr rt data ip p ItemPath =
     (case ip of None \<Rightarrow> Thrown ReferenceError | Some v \<Rightarrow> Done v)"
| "eval_expr rt data ip p (Lit t) =
     (case decode_literal t of None \<Rightarrow> Unmodelled | Some s \<Rightarrow> Done (VStr s))"
| "eval_expr rt data ip p (Plus a b) =
     and_then (eval_expr rt data ip p a) (\<lambda>x.
     and_then (eval_expr rt data ip p b) (\<lambda>y. js_plus x y))"
| "eval_expr rt data ip p (AddToPath a b) =
     (case rt of
        None \<Rightarrow> Thrown ReferenceError
      | Some r \<Rightarrow>
          and_then (eval_expr rt data ip p a) (\<lambda>x.
          and_then (eval_expr rt data ip p b) (\<lambda>y. Done (rt_addToPath r x y))))"
| "eval_expr rt data ip p (Resolve a) =
     and_then (eval_expr rt data ip p a) (\<lambda>x.
       case rt of None \<Rightarrow> resolve data x | Some r \<Rightarrow> Done (rt_resolve r x data))"
| "eval_expr rt data ip p (ResolveB a) =
     and_then (eval_expr rt data ip p a) (\<lambda>x.
       case rt of None \<Rightarrow> resolve data x | Some r \<Rightarrow> Done (rt_resolve r x Undefined))"

text \<open>
  Running statements. \<^verbatim>\<open>(function (path) { ... }(path));\<close> runs its body with a
  variable \<^verbatim>\<open>path\<close> of its own, which starts with the value of the outer one; the
  array \<^verbatim>\<open>__out\<close> is shared. \<^verbatim>\<open>each(..., function (__itemPath) { ... })\<close> calls
  the \<^verbatim>\<open>each\<close> of the runtime with a function that runs the body with the key as
  \<^verbatim>\<open>__itemPath\<close>. Text that is white space does nothing; other \<open>Raw\<close> text has no
  meaning in the model.
\<close>

fun exec_stmt :: "runtime option \<Rightarrow> jsval \<Rightarrow> jsval option \<Rightarrow> stmt \<Rightarrow> state \<Rightarrow> state outcome"
  and exec :: "runtime option \<Rightarrow> jsval \<Rightarrow> jsval option \<Rightarrow> code \<Rightarrow> state \<Rightarrow> state outcome" where
  "exec_stmt rt data ip (Push e) st =
     and_then (eval_expr rt data ip (path st) e) (\<lambda>v. Done (st\<lparr>out := out st @ [v]\<rparr>))"
| "exec_stmt rt data ip (Assign e) st =
     and_then (eval_expr rt data ip (path st) e) (\<lambda>v. Done (st\<lparr>path := v\<rparr>))"
| "exec_stmt rt data ip (PlusAssign e) st =
     and_then (eval_expr rt data ip (path st) e) (\<lambda>v.
     and_then (js_plus (path st) v) (\<lambda>p. Done (st\<lparr>path := p\<rparr>)))"
| "exec_stmt rt data ip (Scope body) st =
     and_then (exec rt data ip body st) (\<lambda>st'. Done (st'\<lparr>path := path st\<rparr>))"
| "exec_stmt rt data ip (IfDefined e body) st =
     and_then (eval_expr rt data ip (path st) e) (\<lambda>v.
       if v \<noteq> Undefined then exec rt data ip body st else Done st)"
| "exec_stmt rt data ip (EachCall e body) st =
     and_then (eval_expr rt data ip (path st) e) (\<lambda>v.
       (case rt of None \<Rightarrow> each | Some r \<Rightarrow> rt_each r)
         v (\<lambda>key val st'. exec rt data (Some key) body st') st)"
| "exec_stmt rt data ip (Raw s) st = (if list_all is_space s then Done st else Unmodelled)"
| "exec rt data ip [] st = Done st"
| "exec rt data ip (x # xs) st = and_then (exec_stmt rt data ip x st) (exec rt data ip xs)"

text \<open>
  The body of a render function, in both files:
  \<^verbatim>\<open>var path = "", __out = []; data = data || {};\<close>, the code, and
  \<^verbatim>\<open>return __out.join("");\<close>
\<close>

definition run_template :: "runtime option \<Rightarrow> code \<Rightarrow> jsval \<Rightarrow> string outcome" where
  "run_template rt c data =
     (let data' = (if falsy data then VObj [] else data)
      in and_then (exec rt data' None c \<lparr>path = VStr [], out = []\<rparr>)
           (\<lambda>st. Done (concat (map join_string (out st)))))"

text \<open>
  \<^verbatim>\<open>helper.wrapTemplate\<close> of src/compiler.js. With \<^verbatim>\<open>includeRuntime\<close> true or
  missing, the text of the functions of \<^verbatim>\<open>runtime.js\<close> is part of the body;
  otherwise \<^verbatim>\<open>resolve\<close>, \<^verbatim>\<open>addToPath\<close> and \<^verbatim>\<open>each\<close> are those of the environment
  in which the render function is called. A render function takes that environment and the data. \<^verbatim>\<open>new Function\<close>
  throws a SyntaxError for text that is no program; the model has no such check, and
  running such text is \<open>Unmodelled\<close>.
\<close>

type_synonym render = "runtime \<Rightarrow> jsval \<Rightarrow> string outcome"

definition wrapTemplate :: "runtime \<Rightarrow> code \<Rightarrow> options \<Rightarrow> render" where
  "wrapTemplate module_runtime c opts =
     (\<lambda>environment data.
        run_template
          (Some (if includeRuntime opts = Some True \<or> includeRuntime opts = None
                 then module_runtime else environment))
          c data)"

text \<open>
  \<^verbatim>\<open>compile (input, options)\<close>, with the functions of \<^verbatim>\<open>runtime.js\<close> and the depth
  of the call stack.
\<close>

definition compile :: "runtime \<Rightarrow> nat \<Rightarrow> string \<Rightarrow> options \<Rightarrow> error + render" where
  "compile module_runtime depth input opts =
     (case parse (''out '' @ input) opts of
        Inl e \<Rightarrow> Inl e
      | Inr tree \<Rightarrow>
          (case transform depth opts tree of
             Inl e \<Rightarrow> Inl e
           | Inr c \<Rightarrow> Inr (wrapTemplate module_runtime c opts)))"

section \<open>The compiler of the bundled build (src/compiler.js, lines 501 to 778)\<close>

text \<open>
  The bundled build holds an earlier compiler. Its \<^verbatim>\<open>parse\<close> loop, \<^verbatim>\<open>parseArg\<close>,
  \<^verbatim>\<open>escapeJS\<close>, \<^verbatim>\<open>output\<close>, \<^verbatim>\<open>transformTree\<close> and \<^verbatim>\<open>keepPath\<close> are the same text
  as above; what differs is defined here, with the suffix \<open>_bundle\<close>.
\<close>

definition parse_bundle :: "string \<Rightarrow> error + tree" where
  "parse_bundle str =
     (case parse_loop str [Str ''''] [] of
        Inl e \<Rightarrow> Inl e
      | Inr (current, stack) \<Rightarrow>
          if length stack \<noteq> 0 then Inl (Error ''Unmatched brace'') else Inr current)"

text \<open>
  \<^verbatim>\<open>.replace(/(\["?|"?])/g, '.')\<close>: from left to right, \<^verbatim>\<open>[\<close> with a double quote
  after it if there is one, and \<^verbatim>\<open>]\<close> with the double quote before it if there is one,
  become a dot.
\<close>

fun brackets_to_dots :: "string \<Rightarrow> string" where
  "brackets_to_dots [] = []"
| "brackets_to_dots (c # cs) =
     (if c = CHR ''['' then
        (case cs of
           [] \<Rightarrow> ''.''
         | d # ds \<Rightarrow>
             if d = CHR 0x22 then CHR ''.'' # brackets_to_dots ds
             else CHR ''.'' # brackets_to_dots cs)
      else if c = CHR 0x22 then
        (case cs of
           [] \<Rightarrow> [c]
         | d # ds \<Rightarrow>
             if d = CHR '']'' then CHR ''.'' # brackets_to_dots ds
             else c # brackets_to_dots cs)
      else if c = CHR '']'' then CHR ''.'' # brackets_to_dots cs
      else c # brackets_to_dots cs)"

text \<open>
  \<^verbatim>\<open>.replace(/^(?=[^\.])/g, '.')\<close> puts a dot before a first character that is not one,
  and \<^verbatim>\<open>.replace(/\.$/g, '')\<close> removes a dot at the end.
\<close>

definition prefix_dot :: "string \<Rightarrow> string" where
  "prefix_dot s = (case s of [] \<Rightarrow> [] | c # cs \<Rightarrow> if c \<noteq> CHR ''.'' then CHR ''.'' # s else s)"

definition strip_last_dot :: "string \<Rightarrow> string" where
  "strip_last_dot s = (if s \<noteq> [] \<and> last s = CHR ''.'' then butlast s else s)"

definition parsePath_bundle :: "tree \<Rightarrow> error + (string \<times> tree)" where
  "parsePath_bundle tree =
     (case parseArg tree of
        Inl e \<Rightarrow> Inl e
      | Inr (arg, tree') \<Rightarrow> Inr (strip_last_dot (prefix_dot (brackets_to_dots arg)), tree'))"

definition macro_dot_bundle :: macro where
  "macro_dot_bundle tree transform' =
     (case parsePath_bundle tree of
        Inl e \<Rightarrow> Inl e
      | Inr (p, tree') \<Rightarrow> Inr [Push (ResolveB (Plus PathVar (Lit p)))])"

definition macro_arrow_bundle :: macro where
  "macro_arrow_bundle tree transform' =
     (case parsePath_bundle tree of
        Inl e \<Rightarrow> Inl e
      | Inr (p, tree') \<Rightarrow>
          (case transformTree tree' transform' of
             Inl e \<Rightarrow> Inl e
           | Inr body \<Rightarrow>
               Inr (keepPath ([PlusAssign (Lit (escapeJS p)), Raw [CHR 0x0A]]
                              @ body @ [Raw [CHR 0x0A]]))))"

definition macro_has_bundle :: macro where
  "macro_has_bundle tree transform' =
     (case parsePath_bundle tree of
        Inl e \<Rightarrow> Inl e
      | Inr (p, tree') \<Rightarrow>
          (case transformTree tree' transform' of
             Inl e \<Rightarrow> Inl e
           | Inr body \<Rightarrow>
               Inr [IfDefined (ResolveB (Plus PathVar (Lit p))) (body @ [Raw [CHR 0x0A]])]))"

definition macro_each_bundle :: macro where
  "macro_each_bundle tree transform' =
     (case parsePath_bundle tree of
        Inl e \<Rightarrow> Inl e
      | Inr (p, tree') \<Rightarrow>
          (case transformTree tree' transform' of
             Inl e \<Rightarrow> Inl e
           | Inr body \<Rightarrow>
               Inr (keepPath
                 [PlusAssign (Lit p), Raw [CHR 0x0A],
                  EachCall (ResolveB (Lit p))
                    (keepPath ([PlusAssign (Plus (Lit ''.'') ItemPath), Raw '' ''] @ body)
                     @ [Raw [CHR 0x0A]])])))"

definition macro_path_bundle :: macro where
  "macro_path_bundle tree transform' =
     (case parsePath_bundle tree of
        Inl e \<Rightarrow> Inl e
      | Inr (p, tree') \<Rightarrow> Inr [Push (Plus PathVar (Lit p))])"

definition nativeMacros_bundle :: "string \<rightharpoonup> macro" where
  "nativeMacros_bundle =
     [''.'' \<mapsto> macro_dot_bundle, ''->'' \<mapsto> macro_arrow_bundle, ''has'' \<mapsto> macro_has_bundle,
      ''each'' \<mapsto> macro_each_bundle, ''path'' \<mapsto> macro_path_bundle, ''out'' \<mapsto> macro_out]"

fun transform_bundle :: "nat \<Rightarrow> (string \<rightharpoonup> macro) \<Rightarrow> tree \<Rightarrow> error + code" where
  "transform_bundle 0 user tree = Inl RangeError"
| "transform_bundle (Suc n) user tree =
     (case parseArg tree of
        Inl e \<Rightarrow> Inl e
      | Inr (macroName, tree') \<Rightarrow>
          (case (case get_macro user macroName of
                   Some m \<Rightarrow> Some m
                 | None \<Rightarrow> get_macro nativeMacros_bundle macroName) of
             Some macro \<Rightarrow> macro tree' (transform_bundle n user)
           | None \<Rightarrow> Inl (Error (''Not a macro:'' @ macroName))))"

text \<open>
  \<^verbatim>\<open>helper.wrapTemplate\<close> of the bundled build puts the text of \<^verbatim>\<open>resolve\<close> and of
  \<^verbatim>\<open>each\<close> into the body.
\<close>

definition wrapTemplate_bundle :: "code \<Rightarrow> jsval \<Rightarrow> string outcome" where
  "wrapTemplate_bundle c = (\<lambda>data. run_template None c data)"

definition compile_bundle ::
  "nat \<Rightarrow> string \<Rightarrow> (string \<rightharpoonup> macro) \<Rightarrow> error + (jsval \<Rightarrow> string outcome)" where
  "compile_bundle depth input user =
     (case parse_bundle (''out '' @ input) of
        Inl e \<Rightarrow> Inl e
      | Inr tree \<Rightarrow>
          (case transform_bundle depth user tree of
             Inl e \<Rightarrow> Inl e
           | Inr c \<Rightarrow> Inr (wrapTemplate_bundle c)))"

text \<open>\<^verbatim>\<open>render (str, data, macros)\<close> of the bundled build.\<close>

definition render_bundle ::
  "nat \<Rightarrow> string \<Rightarrow> jsval \<Rightarrow> (string \<rightharpoonup> macro) \<Rightarrow> error + string outcome" where
  "render_bundle depth str data user =
     (case compile_bundle depth str user of Inl e \<Rightarrow> Inl e | Inr f \<Rightarrow> Inr (f data))"

section \<open>A runtime and a macro for the examples\<close>

text \<open>
  The theorems below hold for every runtime. Where an example needs one, it is this:
  \<^verbatim>\<open>resolve(path, data)\<close> is the bundled \<^verbatim>\<open>resolve\<close> on that data,
  \<^verbatim>\<open>addToPath\<close> joins its arguments with a dot, and \<^verbatim>\<open>each\<close> is the bundled
  \<^verbatim>\<open>each\<close>. The macro of a caller returns the same text for every node.
\<close>

definition example_runtime :: runtime where
  "example_runtime =
     \<lparr>rt_resolve = (\<lambda>p d. case resolve d p of Done v \<Rightarrow> v | _ \<Rightarrow> Undefined),
      rt_addToPath = (\<lambda>p i. VStr (to_string p @ ''.'' @ to_string i)),
      rt_each = each\<rparr>"

definition custom_macro :: macro where
  "custom_macro tree transform' = Inr [Raw ''custom'']"

section \<open>The visits of an iteration\<close>

text \<open>
  The spec's description of an iteration: the iterator is called on the given keys and
  values, one after the other, and an exception of the iterator ends it.
\<close>

fun visit_all ::
  "(jsval \<times> jsval) list \<Rightarrow> (jsval \<Rightarrow> jsval \<Rightarrow> 's \<Rightarrow> 's outcome) \<Rightarrow> 's \<Rightarrow> 's outcome" where
  "visit_all [] iterator s = Done s"
| "visit_all ((key, val) # entries) iterator s =
     and_then (iterator key val s) (visit_all entries iterator)"

text \<open>An iterator that records the keys it is called with.\<close>

definition record_key :: "jsval \<Rightarrow> jsval \<Rightarrow> jsval list \<Rightarrow> jsval list outcome" where
  "record_key key val s = Done (s @ [key])"

section \<open>The depth of a tree\<close>

text \<open>The number of arrays nested in an item, and the largest such number in an array.\<close>

fun nesting :: "item \<Rightarrow> nat" where
  "nesting (Str s) = 0"
| "nesting (Node xs) = Suc (fold max (map nesting xs) 0)"

definition nesting_tree :: "tree \<Rightarrow> nat" where
  "nesting_tree xs = fold max (map nesting xs) 0"

section \<open>The nodes that are handed to transform\<close>

text \<open>
  \<open>earlier_ok tr node i\<close>: every array before index \<open>i\<close> of the node is transformed by
  \<open>tr\<close> without an exception.
\<close>

definition earlier_ok :: "(tree \<Rightarrow> error + code) \<Rightarrow> tree \<Rightarrow> nat \<Rightarrow> bool" where
  "earlier_ok tr node i =
     list_all (\<lambda>x. case x of
                      Str s \<Rightarrow> True
                    | Node t \<Rightarrow> (case tr t of Inl e \<Rightarrow> False | Inr c \<Rightarrow> True))
       (take i node)"

text \<open>
  \<open>handed opts n root k t first\<close>: in the run of \<open>transform n opts root\<close>, the node \<open>t\<close>
  is one that the macros hand to \<^verbatim>\<open>transform\<close>, with room for \<open>k\<close> calls on the stack.
  The root is handed to \<^verbatim>\<open>transform\<close> by \<^verbatim>\<open>compile\<close>. The built-in macros
  \<^verbatim>\<open>out\<close>, \<^verbatim>\<open>->\<close>, \<^verbatim>\<open>has\<close> and \<^verbatim>\<open>each\<close> hand every array of their node to it,
  in the order of the array; \<^verbatim>\<open>.\<close> and \<^verbatim>\<open>path\<close> hand none. A macro of the caller is
  a function of any kind: it hands \<open>t\<close> to \<^verbatim>\<open>transform\<close> when an exception of the callback
  on \<open>t\<close> is the exception of the macro. \<open>first\<close> says that no array before \<open>t\<close> in a
  node on the way has thrown, so that the call on \<open>t\<close> is reached.
\<close>

inductive handed :: "options \<Rightarrow> nat \<Rightarrow> tree \<Rightarrow> nat \<Rightarrow> tree \<Rightarrow> bool \<Rightarrow> bool"
  for opts :: options and n :: nat and root :: tree where
  handed_root: "handed opts n root n root True"
| handed_builtin:
    "handed opts n root (Suc k) node first \<Longrightarrow>
     parseArg node = Inr (name, node') \<Longrightarrow>
     macros opts name = None \<Longrightarrow>
     name \<in> set [''out'', ''->'', ''has'', ''each''] \<Longrightarrow>
     i < length node \<Longrightarrow> node ! i = Node t \<Longrightarrow>
     handed opts n root k t (first \<and> earlier_ok (transform k opts) node i)"
| handed_user:
    "handed opts n root (Suc k) node first \<Longrightarrow>
     parseArg node = Inr (name, node') \<Longrightarrow>
     macros opts name = Some m \<Longrightarrow>
     (\<forall>e. transform k opts t = Inl e \<longrightarrow> m node' (transform k opts) = Inl e) \<Longrightarrow>
     handed opts n root k t first"

section \<open>Properties of parse\<close>

lemma unparse_append: "unparse (xs @ ys) = unparse xs @ unparse ys"
  by (induction xs) simp_all

lemma ends_str_add_to_last: "ends_str t \<Longrightarrow> ends_str (add_to_last t c)"
  by (induction t c rule: add_to_last.induct) (auto simp: ends_str_def)

lemma unparse_add_to_last: "ends_str t \<Longrightarrow> unparse (add_to_last t c) = unparse t @ [c]"
  by (induction t c rule: add_to_last.induct) (auto simp: ends_str_def)

lemma unparse_state_add_to_last:
  "ends_str t \<Longrightarrow> unparse_state (add_to_last t c) stack = unparse_state t stack @ [c]"
  by (cases stack) (simp_all add: unparse_add_to_last)

lemma unparse_state_append:
  "unparse_state (t @ ys) stack = unparse_state t stack @ unparse ys"
  by (cases stack) (simp_all add: unparse_append)

lemma parse_loop_ends_str:
  "ends_str current \<Longrightarrow> parse_loop s current stack = Inr (current', stack') \<Longrightarrow> ends_str current'"
proof (induction s current stack rule: parse_loop.induct)
  case (1 current stack)
  then show ?case by simp
next
  case (2 c cs current stack)
  show ?case
  proof (cases "c = CHR ''{''")
    case True
    with 2 show ?thesis by (simp add: ends_str_def)
  next
    case nopen: False
    show ?thesis
    proof (cases "c = CHR ''}''")
      case True
      with 2 nopen show ?thesis
        by (cases stack) (simp_all add: ends_str_def)
    next
      case False
      with 2 nopen show ?thesis
        by (simp add: ends_str_add_to_last)
    qed
  qed
qed

lemma parse_loop_unparse:
  "ends_str current \<Longrightarrow> parse_loop s current stack = Inr (current', stack') \<Longrightarrow>
   unparse_state current' stack' = unparse_state current stack @ s"
proof (induction s current stack rule: parse_loop.induct)
  case (1 current stack)
  then show ?case by simp
next
  case (2 c cs current stack)
  show ?case
  proof (cases "c = CHR ''{''")
    case True
    with 2 show ?thesis by (simp add: ends_str_def)
  next
    case nopen: False
    show ?thesis
    proof (cases "c = CHR ''}''")
      case True
      with 2 nopen show ?thesis
        by (cases stack) (simp_all add: ends_str_def unparse_state_append)
    next
      case False
      with 2 nopen show ?thesis
        by (simp add: ends_str_add_to_last unparse_state_add_to_last)
    qed
  qed
qed

lemma parse_loop_depth_None:
  "depth_scan s (length stack) = None \<Longrightarrow> parse_loop s current stack = Inl TypeError"
proof (induction s current stack rule: parse_loop.induct)
  case (1 current stack)
  then show ?case by simp
next
  case (2 c cs current stack)
  then show ?case
    by (cases stack) (auto split: if_splits)
qed

lemma parse_loop_depth_Some:
  "depth_scan s (length stack) = Some d \<Longrightarrow>
   \<exists>current' stack'. parse_loop s current stack = Inr (current', stack') \<and> length stack' = d"
proof (induction s current stack rule: parse_loop.induct)
  case (1 current stack)
  then show ?case by simp
next
  case (2 c cs current stack)
  then show ?case
    by (cases stack) (auto split: if_splits)
qed

lemma parse_balanced_returns: "balanced s \<Longrightarrow> \<exists>t. parse s opts = Inr t"
  using parse_loop_depth_Some [of s "[]" 0 "[Str '''']"]
  by (auto simp: balanced_def parse_def)

lemma parse_unmatched_open:
  "depth_scan s 0 = Some (Suc n) \<Longrightarrow>
   parse s opts = Inl (Error (''Unmatched curly bracket'' @ [CHR 0x0A] @ ''File: '' @ file_text (file_name opts)))"
  using parse_loop_depth_Some [of s "[]" "Suc n" "[Str '''']"]
  by (auto simp: parse_def throwError_def)

lemma parse_extra_close: "depth_scan s 0 = None \<Longrightarrow> parse s opts = Inl TypeError"
  using parse_loop_depth_None [of s "[]" "[Str '''']"]
  by (simp add: parse_def)

text \<open>
  Claim C3. For every input string with balanced braces, \<^verbatim>\<open>parse\<close> returns a tree, and
  concatenating the string slots of that tree in document order, with \<^verbatim>\<open>{\<close> and
  \<^verbatim>\<open>}\<close> put back around every child node, gives the input string again.
\<close>

theorem parse_unparse_roundtrip:
  "balanced s \<Longrightarrow> \<exists>t. parse s opts = Inr t \<and> unparse t = s"
proof -
  assume b: "balanced s"
  then obtain current stack where
    loop: "parse_loop s [Str ''''] [] = Inr (current, stack)" and len: "length stack = 0"
    using parse_loop_depth_Some [of s "[]" 0 "[Str '''']"] by (auto simp: balanced_def)
  have "ends_str [Str '''']" by (simp add: ends_str_def)
  from parse_loop_unparse [OF this loop] len have "unparse current = s" by simp
  moreover from loop len have "parse s opts = Inr current" by (simp add: parse_def)
  ultimately show ?thesis by simp
qed

theorem parse_unparse_roundtrip_witness:
  "balanced ''a{b {c}}d'' \<and> (\<exists>t. parse ''a{b {c}}d'' no_options = Inr t \<and> unparse t = ''a{b {c}}d'')"
proof -
  have b: "balanced ''a{b {c}}d''" by (simp add: balanced_def)
  show ?thesis using b parse_unparse_roundtrip [OF b, of no_options] by simp
qed

text \<open>
  Claim C2, at a template with an extra \<^verbatim>\<open>}\<close>: \<^verbatim>\<open>parse\<close> does not reach its
  \<^verbatim>\<open>Unmatched curly bracket\<close> check; the pop of the empty stack gives \<^verbatim>\<open>undefined\<close>
  and \<^verbatim>\<open>parent.push\<close> throws a TypeError.
\<close>

theorem parse_extra_close_brace_TypeError:
  "parse ''out }'' (no_options\<lparr>file_name := Some ''page.html''\<rparr>) = Inl TypeError"
  by (simp add: parse_def)

section \<open>Macro lookup in transform\<close>

lemma no_options_fields:
  "macros no_options = Map.empty" "file_name no_options = None" "includeRuntime no_options = None"
  by (simp_all add: no_options_def)

lemma native_not_inherited: "nativeMacros name = Some m \<Longrightarrow> object_prototype name = None"
  by (auto simp: nativeMacros_def object_prototype_def object_prototype_names_def split: if_splits)

text \<open>
  Claim C7. \<^verbatim>\<open>transform\<close> looks the macro up in the caller's registry first and in the
  built-ins second. A macro that the caller registered under the name of a node is the one
  that is called on the node, with the node after \<^verbatim>\<open>parseArg\<close> and with
  \<^verbatim>\<open>transform\<close> itself as the callback, whether or not a built-in has the same name; a
  built-in is called, in the same way, on a node under whose name the caller registered
  nothing.
\<close>

theorem macro_lookup_order:
  assumes "parseArg tree = Inr (name, tree')"
  shows "(macros opts name = Some m \<longrightarrow> transform (Suc n) opts tree = m tree' (transform n opts))
       \<and> (macros opts name = None \<and> nativeMacros name = Some m \<longrightarrow>
            transform (Suc n) opts tree = m tree' (transform n opts))"
proof (intro conjI impI)
  assume "macros opts name = Some m"
  with assms show "transform (Suc n) opts tree = m tree' (transform n opts)"
    by (simp add: get_macro_def)
next
  assume a: "macros opts name = None \<and> nativeMacros name = Some m"
  then have "object_prototype name = None" by (simp add: native_not_inherited)
  with assms a show "transform (Suc n) opts tree = m tree' (transform n opts)"
    by (simp add: get_macro_def)
qed

theorem macro_lookup_order_witness:
  "parseArg [Str ''each items '', Node [Str ''. name''], Str ''''] =
     Inr (''each'', [Str ''items '', Node [Str ''. name''], Str ''''])
   \<and> nativeMacros ''each'' = Some macro_each
   \<and> macros (no_options\<lparr>macros := [''each'' \<mapsto> custom_macro]\<rparr>) ''each'' = Some custom_macro
   \<and> transform (Suc 0) (no_options\<lparr>macros := [''each'' \<mapsto> custom_macro]\<rparr>)
        [Str ''each items '', Node [Str ''. name''], Str ''''] = Inr [Raw ''custom'']
   \<and> parseArg [Str ''path a''] = Inr (''path'', [Str ''a''])
   \<and> macros (no_options\<lparr>macros := [''each'' \<mapsto> custom_macro]\<rparr>) ''path'' = None
   \<and> nativeMacros ''path'' = Some macro_path
   \<and> transform (Suc 0) (no_options\<lparr>macros := [''each'' \<mapsto> custom_macro]\<rparr>) [Str ''path a'']
       = Inr [Push (AddToPath PathVar (Lit ''a''))]"
proof -
  let ?opts = "no_options\<lparr>macros := [''each'' \<mapsto> custom_macro]\<rparr>"
  have a: "parseArg [Str ''each items '', Node [Str ''. name''], Str ''''] =
     Inr (''each'', [Str ''items '', Node [Str ''. name''], Str ''''])"
    by (simp add: parseArg_def is_space_def)
  have b: "macros ?opts ''each'' = Some custom_macro" by simp
  have c: "nativeMacros ''each'' = Some macro_each" by (simp add: nativeMacros_def)
  from macro_lookup_order [OF a, of ?opts custom_macro 0] b
  have d: "transform (Suc 0) ?opts [Str ''each items '', Node [Str ''. name''], Str '''']
      = Inr [Raw ''custom'']"
    by (simp del: transform.simps add: custom_macro_def)
  have e: "parseArg [Str ''path a''] = Inr (''path'', [Str ''a''])"
    by (simp add: parseArg_def is_space_def)
  have f: "macros ?opts ''path'' = None" by (simp add: no_options_fields)
  have g: "nativeMacros ''path'' = Some macro_path" by (simp add: nativeMacros_def)
  have h: "macro_path [Str ''a''] (transform 0 ?opts) = Inr [Push (AddToPath PathVar (Lit ''a''))]"
    by (simp add: macro_path_def parsePath_def parseArg_def is_space_def)
  from macro_lookup_order [OF e, of ?opts macro_path 0] f g h
  have i: "transform (Suc 0) ?opts [Str ''path a''] = Inr [Push (AddToPath PathVar (Lit ''a''))]"
    by (simp del: transform.simps)
  from a b c d e f g i show ?thesis by blast
qed

section \<open>The runtime: each and resolve\<close>

lemma and_then_cong_fun:
  "r = r' \<Longrightarrow> (\<And>x. f x = g x) \<Longrightarrow> and_then r f = and_then r' g"
  by (cases r') simp_all

lemma each_array_visits:
  "each_array xs i f s = visit_all (map (\<lambda>j. (VNum (int j), xs ! j)) [i..<length xs]) f s"
proof (induction xs i f s rule: each_array.induct)
  case (1 obj i iterator s)
  show ?case
  proof (cases "i < length obj")
    case True
    then have "[i..<length obj] = i # [Suc i..<length obj]" by (simp add: upt_conv_Cons)
    with True 1 show ?thesis
      by (simp del: each_array.simps add: each_array.simps [of obj i] cong: and_then_cong_fun)
  next
    case False
    then show ?thesis by simp
  qed
qed

text \<open>A falsy value: no call of the iterator, and no exception.\<close>

lemma each_falsy: "falsy v \<Longrightarrow> each v f s = Done s"
  by (simp add: each_def)

text \<open>An array: one call for each index, from 0 to the length, in that order.\<close>

lemma each_array_in_order:
  "each (VArr xs) f s = visit_all (map (\<lambda>j. (VNum (int j), xs ! j)) [0..<length xs]) f s"
  by (simp add: each_def each_array_visits del: each_array.simps)

lemma each_keys_object:
  "map_of kvs ''hasOwnProperty'' = None \<Longrightarrow> set keys \<subseteq> fst ` set kvs \<Longrightarrow>
   each_keys (VObj kvs) keys f s =
     visit_all (map (\<lambda>k. (VStr k, the (map_of kvs k))) keys) f s"
proof (induction keys arbitrary: s)
  case Nil
  then show ?case by simp
next
  case (Cons k keys)
  from Cons.prems obtain v where v: "map_of kvs k = Some v"
    by (metis list.set_intros(1) map_of_eq_None_iff not_Some_eq subsetD)
  from Cons.prems have "k \<in> fst ` set kvs" by simp
  moreover from v have "get_prop (VObj kvs) k = Done v" by simp
  ultimately show ?case using Cons v
    by (simp cong: and_then_cong_fun)
qed

lemma map_of_distinct_entries:
  "distinct (map fst kvs) \<Longrightarrow>
   map (\<lambda>k. (VStr k, the (map_of kvs k))) (map fst kvs) = map (\<lambda>(k, v). (VStr k, v)) kvs"
  by (induction kvs) (auto simp: rev_image_eqI)

text \<open>
  An object with no entry named \<^verbatim>\<open>hasOwnProperty\<close>: one call for each entry, in the
  order of the entries.
\<close>

lemma each_object_own_keys:
  "map_of kvs ''hasOwnProperty'' = None \<Longrightarrow> distinct (map fst kvs) \<Longrightarrow>
   each (VObj kvs) f s = visit_all (map (\<lambda>(k, v). (VStr k, v)) kvs) f s"
proof -
  assume h: "map_of kvs ''hasOwnProperty'' = None" and d: "distinct (map fst kvs)"
  have "each (VObj kvs) f s = each_keys (VObj kvs) (map fst kvs) f s"
    by (simp add: each_def)
  also have "\<dots> = visit_all (map (\<lambda>k. (VStr k, the (map_of kvs k))) (map fst kvs)) f s"
    using h by (rule each_keys_object) simp
  also have "\<dots> = visit_all (map (\<lambda>(k, v). (VStr k, v)) kvs) f s"
    using d by (simp only: map_of_distinct_entries)
  finally show ?thesis .
qed

text \<open>
  Claim C5, at an object that has an entry named \<^verbatim>\<open>hasOwnProperty\<close>: the test
  \<^verbatim>\<open>obj.hasOwnProperty(key)\<close> calls the entry, which is no function, and \<^verbatim>\<open>each\<close>
  throws a TypeError before any call of the iterator.
\<close>

theorem each_shadowed_hasOwnProperty_throws:
  "each (VObj [(''hasOwnProperty'', VNum 1)]) record_key [] = Thrown TypeError"
  by (simp add: each_def)

lemma get_prop_no_throw: "\<not> falsy obj \<Longrightarrow> get_prop obj key \<noteq> Thrown e"
  by (cases obj) (simp_all split: option.split)

lemma resolve_loop_no_throw: "\<not> falsy obj \<Longrightarrow> resolve_loop obj parts \<noteq> Thrown e"
proof (induction parts arbitrary: obj)
  case Nil
  then show ?case by simp
next
  case (Cons part parts)
  show ?case
  proof (cases "get_prop obj part")
    case (Done v)
    with Cons.IH [of v] show ?thesis by simp
  next
    case (Thrown e')
    with Cons.prems get_prop_no_throw show ?thesis by blast
  next
    case Unmodelled
    then show ?thesis by simp
  qed
qed

text \<open>
  \<^verbatim>\<open>resolve\<close> does not throw on a string path, as far as the model gives the reads a
  meaning: the render function replaces falsy data by an empty object, and the loop goes
  down into truthy values only.
\<close>

lemma resolve_never_throws: "\<not> falsy data \<Longrightarrow> resolve data (VStr p) \<noteq> Thrown e"
proof -
  assume "\<not> falsy data"
  from resolve_loop_no_throw [OF this, of "filter (\<lambda>part. part \<noteq> []) (split_dot p)" e]
  show ?thesis
    by (cases "resolve_loop data (filter (\<lambda>part. part \<noteq> []) (split_dot p))")
       (auto simp: resolve_def split: if_splits)
qed

text \<open>
  Claim C1, at the data \<^verbatim>\<open>{x: 0}\<close>: the loop of \<^verbatim>\<open>resolve\<close> stops at the falsy value
  and \<^verbatim>\<open>resolve\<close> returns \<^verbatim>\<open>undefined\<close>, so \<^verbatim>\<open>{. x}\<close> renders the empty string and
  \<^verbatim>\<open>{has x yes}\<close> skips its children, as they do on data without \<^verbatim>\<open>x\<close>; on
  \<^verbatim>\<open>{x: 7}\<close> the value is rendered and the children are.
\<close>

theorem falsy_value_rendered_as_absent:
  "resolve (VObj [(''x'', VNum 0)]) (VStr ''.x'') = Done Undefined
   \<and> render_bundle 3 ''{. x}'' (VObj [(''x'', VNum 0)]) Map.empty = Inr (Done [])
   \<and> render_bundle 3 ''{has x yes}'' (VObj [(''x'', VNum 0)]) Map.empty = Inr (Done [])
   \<and> render_bundle 3 ''{has x yes}'' (VObj []) Map.empty = Inr (Done [])
   \<and> render_bundle 3 ''{. x}{has x yes}'' (VObj [(''x'', VNum 7)]) Map.empty = Inr (Done ''7yes'')"
  by code_simp

section \<open>The scope of the path\<close>

lemma exec_keepPath:
  "exec rt data ip (keepPath b) st = Done st' \<Longrightarrow> path st' = path st"
  by (cases "exec rt data ip b st") (auto simp: keepPath_def)

lemma exec_append:
  "exec rt data ip (a @ b) st = and_then (exec rt data ip a st) (exec rt data ip b)"
proof (induction a arbitrary: st)
  case Nil
  then show ?case by simp
next
  case (Cons x a)
  then show ?case by (cases "exec_stmt rt data ip x st") simp_all
qed

lemma exec_newline: "exec rt data ip [Raw [CHR 0x0A]] st = Done st"
  by (simp add: is_space_def)

lemma exec_keepPath_newline:
  "exec rt data ip (keepPath b @ [Raw [CHR 0x0A]]) st = Done st' \<Longrightarrow> path st' = path st"
  by (cases "exec rt data ip (keepPath b) st")
     (auto simp: exec_append exec_newline dest: exec_keepPath simp del: exec.simps)

text \<open>
  Claim C4. Let \<open>c\<close> be the code that the macro \<^verbatim>\<open>->\<close> or the macro \<^verbatim>\<open>each\<close> returns
  for a node, with any callback. When \<open>c\<close> has run, the path is the one from before \<open>c\<close>,
  so the code that follows finds the path it would find without the node. And the body of
  the function that the code of \<^verbatim>\<open>each\<close> passes to the runtime's \<^verbatim>\<open>each\<close> leaves the
  path as it finds it, for every key: every entry starts from the path of the loop.
\<close>

theorem path_is_scoped:
  assumes "macro_arrow tree tr = Inr c \<or> macro_each tree tr = Inr c"
  shows "(exec rt data ip c st = Done st' \<longrightarrow> path st' = path st)
       \<and> (\<forall>p iter. c = keepPath [Assign (AddToPath PathVar (Lit p)), Raw [CHR 0x0A],
                                  EachCall (Resolve PathVar) iter] \<longrightarrow>
             exec rt data (Some key) iter s = Done s' \<longrightarrow> path s' = path s)"
proof -
  from assms obtain b where c: "c = keepPath b"
    by (auto simp: macro_arrow_def macro_each_def split: sum.splits)
  then have first: "exec rt data ip c st = Done st' \<longrightarrow> path st' = path st"
    using exec_keepPath by blast
  have second: "path s' = path s"
    if shape: "c = keepPath [Assign (AddToPath PathVar (Lit p)), Raw [CHR 0x0A],
                            EachCall (Resolve PathVar) iter]"
      and run: "exec rt data (Some key) iter s = Done s'" for p iter
  proof -
    from assms show ?thesis
    proof
      assume "macro_arrow tree tr = Inr c"
      with shape have False
        by (auto simp: macro_arrow_def keepPath_def split: sum.splits)
      then show ?thesis ..
    next
      assume "macro_each tree tr = Inr c"
      with shape obtain b' where "iter = keepPath b' @ [Raw [CHR 0x0A]]"
        by (auto simp: macro_each_def keepPath_def split: sum.splits)
      with run show ?thesis using exec_keepPath_newline by blast
    qed
  qed
  from first second show ?thesis by blast
qed

theorem path_is_scoped_witness:
  "macro_each [Str ''items <'', Node [Str ''path''], Str ''>''] (transform 3 no_options) =
     Inr (keepPath [Assign (AddToPath PathVar (Lit ''items'')), Raw [CHR 0x0A],
            EachCall (Resolve PathVar)
              [Scope [Assign (AddToPath PathVar ItemPath), Push (Lit ''<''),
                      Push (AddToPath PathVar (Lit [])), Push (Lit ''>'')],
               Raw [CHR 0x0A]]])
   \<and> exec (Some example_runtime) (VObj [(''items'', VArr [VNum 10, VNum 20])]) None
        (keepPath [Assign (AddToPath PathVar (Lit ''items'')), Raw [CHR 0x0A],
            EachCall (Resolve PathVar)
              [Scope [Assign (AddToPath PathVar ItemPath), Push (Lit ''<''),
                      Push (AddToPath PathVar (Lit [])), Push (Lit ''>'')],
               Raw [CHR 0x0A]]])
        \<lparr>path = VStr [], out = []\<rparr>
       = Done \<lparr>path = VStr [], out = [VStr ''<'', VStr ''.items.0.'', VStr ''>'',
                                        VStr ''<'', VStr ''.items.1.'', VStr ''>'']\<rparr>
   \<and> path \<lparr>path = VStr [], out = [VStr ''<'', VStr ''.items.0.'', VStr ''>'',
                                   VStr ''<'', VStr ''.items.1.'', VStr ''>'']\<rparr>
       = path \<lparr>path = VStr [], out = []\<rparr>
   \<and> exec (Some example_runtime) (VObj [(''items'', VArr [VNum 10, VNum 20])]) (Some (VNum 1))
        [Scope [Assign (AddToPath PathVar ItemPath), Push (Lit ''<''),
                Push (AddToPath PathVar (Lit [])), Push (Lit ''>'')],
         Raw [CHR 0x0A]]
        \<lparr>path = VStr ''.items'', out = []\<rparr>
       = Done \<lparr>path = VStr ''.items'', out = [VStr ''<'', VStr ''.items.1.'', VStr ''>'']\<rparr>
   \<and> path \<lparr>path = VStr ''.items'', out = [VStr ''<'', VStr ''.items.1.'', VStr ''>'']\<rparr>
       = path \<lparr>path = VStr ''.items'', out = []\<rparr>"
proof -
  have m: "macro_each [Str ''items <'', Node [Str ''path''], Str ''>''] (transform 3 no_options) =
     Inr (keepPath [Assign (AddToPath PathVar (Lit ''items'')), Raw [CHR 0x0A],
            EachCall (Resolve PathVar)
              [Scope [Assign (AddToPath PathVar ItemPath), Push (Lit ''<''),
                      Push (AddToPath PathVar (Lit [])), Push (Lit ''>'')],
               Raw [CHR 0x0A]]])"
    by code_simp
  have e1: "exec (Some example_runtime) (VObj [(''items'', VArr [VNum 10, VNum 20])]) None
        (keepPath [Assign (AddToPath PathVar (Lit ''items'')), Raw [CHR 0x0A],
            EachCall (Resolve PathVar)
              [Scope [Assign (AddToPath PathVar ItemPath), Push (Lit ''<''),
                      Push (AddToPath PathVar (Lit [])), Push (Lit ''>'')],
               Raw [CHR 0x0A]]])
        \<lparr>path = VStr [], out = []\<rparr>
       = Done \<lparr>path = VStr [], out = [VStr ''<'', VStr ''.items.0.'', VStr ''>'',
                                        VStr ''<'', VStr ''.items.1.'', VStr ''>'']\<rparr>"
    by code_simp
  have e2: "exec (Some example_runtime) (VObj [(''items'', VArr [VNum 10, VNum 20])]) (Some (VNum 1))
        [Scope [Assign (AddToPath PathVar ItemPath), Push (Lit ''<''),
                Push (AddToPath PathVar (Lit [])), Push (Lit ''>'')],
         Raw [CHR 0x0A]]
        \<lparr>path = VStr ''.items'', out = []\<rparr>
       = Done \<lparr>path = VStr ''.items'', out = [VStr ''<'', VStr ''.items.1.'', VStr ''>'']\<rparr>"
    by code_simp
  note t = path_is_scoped [OF disjI2 [OF m]]
  from t e1 have p1: "path \<lparr>path = VStr [], out = [VStr ''<'', VStr ''.items.0.'', VStr ''>'',
                                   VStr ''<'', VStr ''.items.1.'', VStr ''>'']\<rparr>
       = path \<lparr>path = VStr [], out = []\<rparr>"
    by blast
  from t e2 have p2: "path \<lparr>path = VStr ''.items'', out = [VStr ''<'', VStr ''.items.1.'', VStr ''>'']\<rparr>
       = path \<lparr>path = VStr ''.items'', out = []\<rparr>"
    by blast
  from m e1 p1 e2 p2 show ?thesis by blast
qed

section \<open>Falsy data\<close>

text \<open>
  Claim C9. A render function, of src/compiler.js or of the bundled build, called with
  falsy data returns what it returns when called with an empty object.
\<close>

theorem falsy_data_is_empty_object:
  "falsy d \<Longrightarrow>
   (compile module_runtime depth input opts = Inr f \<longrightarrow> f env d = f env (VObj []))
   \<and> (compile_bundle depth' input' user = Inr g \<longrightarrow> g d = g (VObj []))"
  by (auto simp: compile_def compile_bundle_def wrapTemplate_def wrapTemplate_bundle_def
        run_template_def split: sum.splits)

lemma parse_text_dot:
  "parse ''out a{. x}'' no_options = Inr [Str ''out a'', Node [Str ''. x''], Str []]"
  by (simp add: parse_def)

lemma parse_bundle_text_dot:
  "parse_bundle ''out a{. x}'' = Inr [Str ''out a'', Node [Str ''. x''], Str []]"
  by (simp add: parse_bundle_def)

lemma transform_text_dot:
  "transform 3 no_options [Str ''out a'', Node [Str ''. x''], Str []] =
     Inr [Push (Lit ''a''), Push (Resolve (AddToPath PathVar (Lit ''x'')))]"
  by code_simp

lemma transform_bundle_text_dot:
  "transform_bundle 3 Map.empty [Str ''out a'', Node [Str ''. x''], Str []] =
     Inr [Push (Lit ''a''), Push (ResolveB (Plus PathVar (Lit ''.x'')))]"
  by code_simp

theorem falsy_data_is_empty_object_witness:
  "falsy (VNum 0)
   \<and> compile example_runtime 3 ''a{. x}'' no_options =
       Inr (wrapTemplate example_runtime
              [Push (Lit ''a''), Push (Resolve (AddToPath PathVar (Lit ''x'')))] no_options)
   \<and> wrapTemplate example_runtime
        [Push (Lit ''a''), Push (Resolve (AddToPath PathVar (Lit ''x'')))] no_options
        example_runtime (VNum 0)
      = wrapTemplate example_runtime
        [Push (Lit ''a''), Push (Resolve (AddToPath PathVar (Lit ''x'')))] no_options
        example_runtime (VObj [])
   \<and> compile_bundle 3 ''a{. x}'' Map.empty =
       Inr (wrapTemplate_bundle [Push (Lit ''a''), Push (ResolveB (Plus PathVar (Lit ''.x'')))])
   \<and> wrapTemplate_bundle [Push (Lit ''a''), Push (ResolveB (Plus PathVar (Lit ''.x'')))] (VNum 0)
      = wrapTemplate_bundle [Push (Lit ''a''), Push (ResolveB (Plus PathVar (Lit ''.x'')))] (VObj [])
   \<and> wrapTemplate_bundle [Push (Lit ''a''), Push (ResolveB (Plus PathVar (Lit ''.x'')))] (VObj [])
      = Done ''a''"
proof -
  have a: "falsy (VNum 0)" by simp
  have c1: "compile example_runtime 3 ''a{. x}'' no_options =
       Inr (wrapTemplate example_runtime
              [Push (Lit ''a''), Push (Resolve (AddToPath PathVar (Lit ''x'')))] no_options)"
    by (simp add: compile_def parse_text_dot transform_text_dot)
  have c2: "compile_bundle 3 ''a{. x}'' Map.empty =
       Inr (wrapTemplate_bundle [Push (Lit ''a''), Push (ResolveB (Plus PathVar (Lit ''.x'')))])"
    by (simp add: compile_bundle_def parse_bundle_text_dot transform_bundle_text_dot)
  have r: "wrapTemplate_bundle [Push (Lit ''a''), Push (ResolveB (Plus PathVar (Lit ''.x'')))] (VObj [])
      = Done ''a''"
    by code_simp
  note t = falsy_data_is_empty_object [OF a]
  from t c1 have e1: "wrapTemplate example_runtime
        [Push (Lit ''a''), Push (Resolve (AddToPath PathVar (Lit ''x'')))] no_options
        example_runtime (VNum 0)
      = wrapTemplate example_runtime
        [Push (Lit ''a''), Push (Resolve (AddToPath PathVar (Lit ''x'')))] no_options
        example_runtime (VObj [])"
    by blast
  from t c2 have e2: "wrapTemplate_bundle [Push (Lit ''a''), Push (ResolveB (Plus PathVar (Lit ''.x'')))] (VNum 0)
      = wrapTemplate_bundle [Push (Lit ''a''), Push (ResolveB (Plus PathVar (Lit ''.x'')))] (VObj [])"
    by blast
  from a c1 e1 c2 e2 r show ?thesis by blast
qed

section \<open>The embedded runtime\<close>

text \<open>
  With \<^verbatim>\<open>includeRuntime\<close> true or missing, a render function does not read the
  environment it is called in.
\<close>

lemma wrapTemplate_embedded_runtime:
  "includeRuntime opts \<noteq> Some False \<Longrightarrow>
   wrapTemplate module_runtime c opts env d = wrapTemplate module_runtime c opts env' d"
  by (cases "includeRuntime opts") (auto simp: wrapTemplate_def)

section \<open>The text of the generated code\<close>

text \<open>
  The text of the code that each macro returns, as the string expression of the source
  has it.
\<close>

lemma emit_append: "emit (a @ b) = emit a @ emit b"
  by (induction a) simp_all

lemma emit_output_str:
  "emit (output_str str) =
     (if str = [] then [] else ''__out.push('' @ [CHR 0x22] @ escapeJS str @ [CHR 0x22] @ '');'')"
  by (simp add: output_str_def)

lemma emit_keepPath:
  "emit (keepPath c) = ''(function (path) {'' @ [CHR 0x0A] @ emit c @ [CHR 0x0A] @ ''}(path));''"
  by (simp add: keepPath_def)

lemma emit_macro_dot:
  "parsePath tree = Inr (p, tree') \<Longrightarrow>
   map_sum id emit (macro_dot tree tr) =
     Inr (''__out.push(resolve(addToPath(path, '' @ [CHR 0x22] @ p @ [CHR 0x22] @ ''), data));'')"
  by (simp add: macro_dot_def)

lemma emit_macro_arrow:
  "parsePath tree = Inr (p, tree') \<Longrightarrow> transformTree tree' tr = Inr body \<Longrightarrow>
   map_sum id emit (macro_arrow tree tr) =
     Inr (''(function (path) {'' @ [CHR 0x0A]
          @ ''path = addToPath(path, '' @ [CHR 0x22] @ p @ [CHR 0x22] @ '');'' @ [CHR 0x0A]
          @ emit body @ [CHR 0x0A]
          @ [CHR 0x0A] @ ''}(path));'')"
  by (simp add: macro_arrow_def keepPath_def emit_append)

lemma emit_macro_has:
  "parsePath tree = Inr (p, tree') \<Longrightarrow> transformTree tree' tr = Inr body \<Longrightarrow>
   map_sum id emit (macro_has tree tr) =
     Inr (''if (typeof resolve(addToPath(path, '' @ [CHR 0x22] @ p @ [CHR 0x22]
          @ ''), data) !== '' @ [CHR 0x22] @ ''undefined'' @ [CHR 0x22] @ '') {'' @ [CHR 0x0A]
          @ emit body @ [CHR 0x0A]
          @ ''}'')"
  by (simp add: macro_has_def emit_append)

lemma emit_macro_each:
  "parsePath tree = Inr (p, tree') \<Longrightarrow> transformTree tree' tr = Inr body \<Longrightarrow>
   map_sum id emit (macro_each tree tr) =
     Inr (''(function (path) {'' @ [CHR 0x0A]
          @ ''path = addToPath(path, '' @ [CHR 0x22] @ p @ [CHR 0x22] @ '');'' @ [CHR 0x0A]
          @ ''each(resolve(path, data), function (__itemPath) {''
          @ ''(function (path) {'' @ [CHR 0x0A]
          @ ''path = addToPath(path, __itemPath);'' @ emit body
          @ [CHR 0x0A] @ ''}(path));'' @ [CHR 0x0A]
          @ ''});''
          @ [CHR 0x0A] @ ''}(path));'')"
  by (simp add: macro_each_def keepPath_def emit_append)

lemma emit_macro_path:
  "parsePath tree = Inr (p, tree') \<Longrightarrow>
   map_sum id emit (macro_path tree tr) =
     Inr (''__out.push(addToPath(path, '' @ [CHR 0x22] @ p @ [CHR 0x22] @ ''));'')"
  by (simp add: macro_path_def)

lemma emit_macro_dot_bundle:
  "parsePath_bundle tree = Inr (p, tree') \<Longrightarrow>
   map_sum id emit (macro_dot_bundle tree tr) =
     Inr (''__out.push(resolve(path + '' @ [CHR 0x22] @ p @ [CHR 0x22] @ ''));'')"
  by (simp add: macro_dot_bundle_def)

lemma emit_macro_arrow_bundle:
  "parsePath_bundle tree = Inr (p, tree') \<Longrightarrow> transformTree tree' tr = Inr body \<Longrightarrow>
   map_sum id emit (macro_arrow_bundle tree tr) =
     Inr (''(function (path) {'' @ [CHR 0x0A]
          @ ''path += '' @ [CHR 0x22] @ escapeJS p @ [CHR 0x22] @ '';'' @ [CHR 0x0A]
          @ emit body @ [CHR 0x0A]
          @ [CHR 0x0A] @ ''}(path));'')"
  by (simp add: macro_arrow_bundle_def keepPath_def emit_append)

lemma emit_macro_has_bundle:
  "parsePath_bundle tree = Inr (p, tree') \<Longrightarrow> transformTree tree' tr = Inr body \<Longrightarrow>
   map_sum id emit (macro_has_bundle tree tr) =
     Inr (''if (typeof resolve(path + '' @ [CHR 0x22] @ p @ [CHR 0x22]
          @ '') !== '' @ [CHR 0x22] @ ''undefined'' @ [CHR 0x22] @ '') {'' @ [CHR 0x0A]
          @ emit body @ [CHR 0x0A]
          @ ''}'')"
  by (simp add: macro_has_bundle_def emit_append)

lemma emit_macro_each_bundle:
  "parsePath_bundle tree = Inr (p, tree') \<Longrightarrow> transformTree tree' tr = Inr body \<Longrightarrow>
   map_sum id emit (macro_each_bundle tree tr) =
     Inr (''(function (path) {'' @ [CHR 0x0A]
          @ ''path += '' @ [CHR 0x22] @ p @ [CHR 0x22] @ '';'' @ [CHR 0x0A]
          @ ''each(resolve('' @ [CHR 0x22] @ p @ [CHR 0x22] @ ''), function (__itemPath) {''
          @ ''(function (path) {'' @ [CHR 0x0A]
          @ ''path += '' @ [CHR 0x22] @ ''.'' @ [CHR 0x22] @ '' + __itemPath; '' @ emit body
          @ [CHR 0x0A] @ ''}(path));'' @ [CHR 0x0A]
          @ ''});''
          @ [CHR 0x0A] @ ''}(path));'')"
  by (simp add: macro_each_bundle_def keepPath_def emit_append)

lemma emit_macro_path_bundle:
  "parsePath_bundle tree = Inr (p, tree') \<Longrightarrow>
   map_sum id emit (macro_path_bundle tree tr) =
     Inr (''__out.push(path + '' @ [CHR 0x22] @ p @ [CHR 0x22] @ '');'')"
  by (simp add: macro_path_bundle_def)

section \<open>The depth of the recursion\<close>

text \<open>
  With the bundled macros alone, \<^verbatim>\<open>transform\<close> calls itself once for each level of
  nesting: a call stack deeper than the tree never overflows.
\<close>

lemma fold_max_ge: "(m::nat) \<le> fold max ns m"
  by (induction ns arbitrary: m) (auto intro: order_trans [OF max.cobounded2])

lemma fold_max_mono: "(a::nat) \<le> b \<Longrightarrow> fold max ns a \<le> fold max ns b"
  by (induction ns arbitrary: a b) (auto simp: max.mono)

lemma fold_max_member: "(n::nat) \<in> set ns \<Longrightarrow> n \<le> fold max ns m"
proof (induction ns arbitrary: m)
  case Nil
  then show ?case by simp
next
  case (Cons a ns)
  show ?case
  proof (cases "n = a")
    case True
    have "n \<le> max a m" using True by simp
    also have "\<dots> \<le> fold max ns (max a m)" by (rule fold_max_ge)
    finally show ?thesis by simp
  next
    case False
    with Cons show ?thesis by simp
  qed
qed

lemma nesting_child: "Node t \<in> set xs \<Longrightarrow> Suc (nesting_tree t) \<le> nesting_tree xs"
proof -
  assume "Node t \<in> set xs"
  then have "nesting (Node t) \<in> set (map nesting xs)" by force
  from fold_max_member [OF this, of 0] show ?thesis by (simp add: nesting_tree_def)
qed

lemma transformTree_error:
  "transformTree xs tr = Inl e \<Longrightarrow> \<exists>t. Node t \<in> set xs \<and> tr t = Inl e"
  by (induction xs tr rule: transformTree.induct) (auto split: sum.splits)

lemma parseArg_cases:
  "parseArg tree = Inl TypeError \<or> (\<exists>s name s' rest. tree = Str s # rest \<and> parseArg tree = Inr (name, Str s' # rest))"
  by (auto simp: parseArg_def Let_def split: list.splits item.splits)

lemma native_macro_error:
  assumes "nativeMacros name = Some m" and "m (Str s # rest) tr = Inl e"
  shows "e = TypeError \<or> (\<exists>t. Node t \<in> set rest \<and> tr t = Inl e)"
proof -
  have p: "\<exists>q s'. parsePath (Str s # rest) = Inr (q, Str s' # rest)"
    by (simp add: parsePath_def parseArg_def Let_def)
  from assms(1) have "m = macro_dot \<or> m = macro_arrow \<or> m = macro_has \<or> m = macro_each
      \<or> m = macro_path \<or> m = macro_out"
    by (auto simp: nativeMacros_def split: if_splits)
  with assms(2) p show ?thesis
    by (auto simp: macro_dot_def macro_arrow_def macro_has_def macro_each_def macro_path_def
          macro_out_def split: sum.splits dest!: transformTree_error)
qed

lemma prototype_macro_error:
  "object_prototype name = Some m \<Longrightarrow> m tree tr = Inl e \<Longrightarrow> e = TypeError"
  by (auto simp: object_prototype_def split: if_splits)

lemma transform_enough_depth:
  "macros opts = Map.empty \<Longrightarrow> nesting_tree tree < n \<Longrightarrow> transform n opts tree \<noteq> Inl RangeError"
proof (induction n arbitrary: tree)
  case 0
  then show ?case by simp
next
  case (Suc n)
  from parseArg_cases [of tree] show ?case
  proof
    assume "parseArg tree = Inl TypeError"
    then show ?thesis by simp
  next
    assume "\<exists>s name s' rest. tree = Str s # rest \<and> parseArg tree = Inr (name, Str s' # rest)"
    then obtain s name s' rest where
      tree: "tree = Str s # rest" and pa: "parseArg tree = Inr (name, Str s' # rest)"
      by blast
    have child: "transform n opts t \<noteq> Inl RangeError" if "Node t \<in> set rest" for t
    proof -
      from that have "Node t \<in> set tree" by (simp add: tree)
      from nesting_child [OF this] Suc.prems(2) have "nesting_tree t < n" by simp
      with Suc.IH Suc.prems(1) show ?thesis by blast
    qed
    show ?thesis
    proof (cases "object_prototype name")
      case (Some m)
      with pa Suc.prems(1) show ?thesis
        by (auto simp: get_macro_def dest: prototype_macro_error)
    next
      case None
      show ?thesis
      proof (cases "nativeMacros name")
        case nn: None
        with None pa Suc.prems(1) show ?thesis
          by (simp add: get_macro_def throwError_def)
      next
        case (Some m)
        have "m (Str s' # rest) (transform n opts) \<noteq> Inl RangeError"
        proof
          assume "m (Str s' # rest) (transform n opts) = Inl RangeError"
          from native_macro_error [OF Some this] child show False by auto
        qed
        with Some None pa Suc.prems(1) show ?thesis
          by (simp add: get_macro_def)
      qed
    qed
  qed
qed

section \<open>Nodes that are no macro\<close>

lemma parseArg_shape:
  "parseArg node = Inr (name, node') \<Longrightarrow> \<exists>s s' rest. node = Str s # rest \<and> node' = Str s' # rest"
  by (auto simp: parseArg_def Let_def split: list.splits item.splits)

lemma parsePath_Str: "\<exists>p s'. parsePath (Str s # rest) = Inr (p, Str s' # rest)"
  by (simp add: parsePath_def parseArg_def Let_def)

lemma earlier_ok_0: "earlier_ok tr xs 0"
  by (simp add: earlier_ok_def)

lemma earlier_ok_Suc_Str: "earlier_ok tr (Str s # xs) (Suc i) = earlier_ok tr xs i"
  by (simp add: earlier_ok_def)

lemma earlier_ok_Suc_Node:
  "earlier_ok tr (Node t # xs) (Suc i) = ((\<exists>c. tr t = Inr c) \<and> earlier_ok tr xs i)"
  by (cases "tr t") (simp_all add: earlier_ok_def)

lemma transformTree_child:
  "i < length xs \<Longrightarrow> xs ! i = Node t \<Longrightarrow> tr t = Inl e \<Longrightarrow>
   (\<exists>e'. transformTree xs tr = Inl e') \<and> (earlier_ok tr xs i \<longrightarrow> transformTree xs tr = Inl e)"
proof (induction xs tr arbitrary: i rule: transformTree.induct)
  case (1 transform)
  then show ?case by simp
next
  case (2 s rest transform)
  then obtain j where i: "i = Suc j" by (cases i) auto
  with 2 have "(\<exists>e'. transformTree rest transform = Inl e')
      \<and> (earlier_ok transform rest j \<longrightarrow> transformTree rest transform = Inl e)"
    by simp
  then show ?case by (auto simp: i earlier_ok_Suc_Str)
next
  case (3 item rest transform)
  show ?case
  proof (cases i)
    case 0
    with 3 show ?thesis by simp
  next
    case (Suc j)
    show ?thesis
    proof (cases "transform item")
      case (Inl e0)
      then show ?thesis by (simp add: Suc earlier_ok_Suc_Node)
    next
      case (Inr c)
      with 3 Suc have "(\<exists>e'. transformTree rest transform = Inl e')
          \<and> (earlier_ok transform rest j \<longrightarrow> transformTree rest transform = Inl e)"
        by simp
      with Inr show ?thesis by (auto simp: Suc earlier_ok_Suc_Node)
    qed
  qed
qed

lemma transformTree_child_slot:
  assumes "i < length (Str s # rest)" and "(Str s # rest) ! i = Node t" and "tr t = Inl e"
  shows "(\<exists>e'. transformTree (Str s' # rest) tr = Inl e')
       \<and> (earlier_ok tr (Str s # rest) i \<longrightarrow> transformTree (Str s' # rest) tr = Inl e)"
proof -
  from assms(2) obtain j where i: "i = Suc j" by (cases i) auto
  with assms have "Suc j < length (Str s' # rest)" "(Str s' # rest) ! Suc j = Node t" by simp_all
  with assms(3) transformTree_child [of "Suc j" "Str s' # rest" t tr e] show ?thesis
    by (simp add: i earlier_ok_Suc_Str)
qed

lemma builtin_hands_children:
  assumes name: "name \<in> set [''out'', ''->'', ''has'', ''each'']"
      and i: "i < length (Str s # rest)" "(Str s # rest) ! i = Node t"
      and e: "tr t = Inl e"
  shows "\<exists>m. nativeMacros name = Some m
       \<and> (\<exists>e'. m (Str s' # rest) tr = Inl e')
       \<and> (earlier_ok tr (Str s # rest) i \<longrightarrow> m (Str s' # rest) tr = Inl e)"
proof -
  obtain p s'' where p: "parsePath (Str s' # rest) = Inr (p, Str s'' # rest)"
    using parsePath_Str by blast
  from i e have a: "(\<exists>e'. transformTree (Str s' # rest) tr = Inl e')
       \<and> (earlier_ok tr (Str s # rest) i \<longrightarrow> transformTree (Str s' # rest) tr = Inl e)"
    by (rule transformTree_child_slot)
  from i e have b: "(\<exists>e'. transformTree (Str s'' # rest) tr = Inl e')
       \<and> (earlier_ok tr (Str s # rest) i \<longrightarrow> transformTree (Str s'' # rest) tr = Inl e)"
    by (rule transformTree_child_slot)
  from name consider "name = ''out''" | "name = ''->''" | "name = ''has''" | "name = ''each''"
    by auto
  then show ?thesis
  proof cases
    case 1
    with a show ?thesis by (auto simp: nativeMacros_def macro_out_def)
  next
    case 2
    with b p show ?thesis by (auto simp: nativeMacros_def macro_arrow_def)
  next
    case 3
    with b p show ?thesis by (auto simp: nativeMacros_def macro_has_def)
  next
    case 4
    with b p show ?thesis by (auto simp: nativeMacros_def macro_each_def)
  qed
qed

lemma handed_propagates:
  "handed opts n root k t first \<Longrightarrow> transform k opts t = Inl e \<Longrightarrow>
   (\<exists>e'. transform n opts root = Inl e') \<and> (first \<longrightarrow> transform n opts root = Inl e)"
proof (induction arbitrary: e rule: handed.induct)
  case handed_root
  then show ?case by simp
next
  case (handed_builtin k node first name node' i t)
  from parseArg_shape [OF handed_builtin.hyps(2)] obtain s s' rest where
    node: "node = Str s # rest" and node': "node' = Str s' # rest" by blast
  from builtin_hands_children [OF handed_builtin.hyps(4), of i s rest t "transform k opts" e s']
    handed_builtin.hyps(5,6) handed_builtin.prems
  obtain m where m: "nativeMacros name = Some m"
    and some: "\<exists>e'. m node' (transform k opts) = Inl e'"
    and exact: "earlier_ok (transform k opts) node i \<longrightarrow> m node' (transform k opts) = Inl e"
    by (auto simp: node node')
  from handed_builtin.hyps(2,3) m
  have t: "transform (Suc k) opts node = m node' (transform k opts)"
    by (simp add: get_macro_def native_not_inherited)
  from some obtain e' where e': "transform (Suc k) opts node = Inl e'" unfolding t by blast
  from handed_builtin.IH [OF e'] have root: "\<exists>e'. transform n opts root = Inl e'" by blast
  have "transform n opts root = Inl e" if "first" "earlier_ok (transform k opts) node i"
  proof -
    from that(2) exact have "transform (Suc k) opts node = Inl e" unfolding t by blast
    from handed_builtin.IH [OF this] that(1) show ?thesis by blast
  qed
  with root show ?case by blast
next
  case (handed_user k node first name node' m t)
  from handed_user.hyps(2,3) have "transform (Suc k) opts node = m node' (transform k opts)"
    by (simp add: get_macro_def)
  with handed_user.hyps(4) handed_user.prems have "transform (Suc k) opts node = Inl e"
    by (simp del: transform.simps)
  from handed_user.IH [OF this] show ?case .
qed

lemma compile_fails_as_transform:
  "parse (''out '' @ input) opts = Inr root \<Longrightarrow>
   compile module_runtime depth input opts =
     (case transform depth opts root of
        Inl e \<Rightarrow> Inl e
      | Inr c \<Rightarrow> Inr (wrapTemplate module_runtime c opts))"
  by (simp add: compile_def)

lemma transform_not_a_macro:
  "parseArg tree = Inr (name, tree') \<Longrightarrow> macros opts name = None \<Longrightarrow>
   nativeMacros name = None \<Longrightarrow> object_prototype name = None \<Longrightarrow>
   transform (Suc n) opts tree =
     Inl (Error (''Not a macro: '' @ [CHR 0x22] @ name @ [CHR 0x22] @ [CHR 0x0A] @ ''File: ''
                 @ file_text (file_name opts)))"
  by (simp add: get_macro_def throwError_def)

text \<open>
  Claim C8, amended. Take a template with balanced braces and a node of it that is handed
  to \<^verbatim>\<open>transform\<close>, with room on the stack, and whose macro name is no macro of the
  caller, no built-in and no member of \<^verbatim>\<open>Object.prototype\<close>. Then \<^verbatim>\<open>compile\<close> throws
  and returns no render function; and unless an earlier node has thrown first, what it
  throws is the error \<^verbatim>\<open>Not a macro: "name"\<close> with the name of the node, followed by the
  line with the file.
\<close>

theorem compile_unknown_macro:
  assumes "parse (''out '' @ input) opts = Inr root"
      and "handed opts depth root (Suc k) node first"
      and "parseArg node = Inr (name, node')"
      and "macros opts name = None" and "nativeMacros name = None"
      and "object_prototype name = None"
  shows "(\<exists>e. compile module_runtime depth input opts = Inl e)
       \<and> (first \<longrightarrow> compile module_runtime depth input opts =
            Inl (Error (''Not a macro: '' @ [CHR 0x22] @ name @ [CHR 0x22] @ [CHR 0x0A]
                        @ ''File: '' @ file_text (file_name opts))))"
proof -
  note t = transform_not_a_macro [OF assms(3-6), of k]
  from handed_propagates [OF assms(2) t] show ?thesis
    by (auto simp: compile_fails_as_transform [OF assms(1)])
qed

lemma parse_has_foo:
  "parse ''out x{has a {foo}}'' no_options =
     Inr [Str ''out x'', Node [Str ''has a '', Node [Str ''foo''], Str []], Str []]"
  by (simp add: parse_def)

lemma handed_has_foo:
  "handed no_options 3 [Str ''out x'', Node [Str ''has a '', Node [Str ''foo''], Str []], Str []]
     (Suc 0) [Str ''foo''] True"
proof -
  let ?root = "[Str ''out x'', Node [Str ''has a '', Node [Str ''foo''], Str []], Str []]"
  let ?has = "[Str ''has a '', Node [Str ''foo''], Str []]"
  have r: "handed no_options 3 ?root (Suc 2) ?root True"
    using handed_root [of no_options 3 ?root] by (simp add: eval_nat_numeral)
  have p1: "parseArg ?root = Inr (''out'', [Str ''x'', Node ?has, Str []])"
    by (simp add: parseArg_def is_space_def)
  have "handed no_options 3 ?root 2 ?has (True \<and> earlier_ok (transform 2 no_options) ?root 1)"
    by (rule handed_builtin [OF r p1]) (simp_all add: no_options_fields)
  then have h: "handed no_options 3 ?root (Suc 1) ?has True"
    by (simp add: earlier_ok_def eval_nat_numeral)
  have p2: "parseArg ?has = Inr (''has'', [Str ''a '', Node [Str ''foo''], Str []])"
    by (simp add: parseArg_def is_space_def)
  have "handed no_options 3 ?root 1 [Str ''foo'']
      (True \<and> earlier_ok (transform 1 no_options) ?has 1)"
    by (rule handed_builtin [OF h p2]) (simp_all add: no_options_fields)
  then show ?thesis by (simp add: earlier_ok_def eval_nat_numeral)
qed

theorem compile_unknown_macro_witness:
  "parse ''out x{has a {foo}}'' no_options =
     Inr [Str ''out x'', Node [Str ''has a '', Node [Str ''foo''], Str []], Str []]
   \<and> handed no_options 3 [Str ''out x'', Node [Str ''has a '', Node [Str ''foo''], Str []], Str []]
       (Suc 0) [Str ''foo''] True
   \<and> parseArg [Str ''foo''] = Inr (''foo'', [Str []])
   \<and> macros no_options ''foo'' = None \<and> nativeMacros ''foo'' = None
   \<and> object_prototype ''foo'' = None
   \<and> compile example_runtime 3 ''x{has a {foo}}'' no_options =
       Inl (Error (''Not a macro: '' @ [CHR 0x22] @ ''foo'' @ [CHR 0x22, CHR 0x0A]
                   @ ''File: undefined''))"
proof -
  have p: "parse (''out '' @ ''x{has a {foo}}'') no_options =
     Inr [Str ''out x'', Node [Str ''has a '', Node [Str ''foo''], Str []], Str []]"
    using parse_has_foo by simp
  have a: "parseArg [Str ''foo''] = Inr (''foo'', [Str []])"
    by (simp add: parseArg_def is_space_def)
  have b: "macros no_options ''foo'' = None" by (simp add: no_options_fields)
  have c: "nativeMacros ''foo'' = None" by (simp add: nativeMacros_def)
  have d: "object_prototype ''foo'' = None"
    by (simp add: object_prototype_def object_prototype_names_def)
  have f: "file_text (file_name no_options) = ''undefined''"
    by (simp add: file_text_def no_options_fields)
  from compile_unknown_macro [OF p handed_has_foo a b c d, of example_runtime]
  have e: "compile example_runtime 3 ''x{has a {foo}}'' no_options =
       Inl (Error (''Not a macro: '' @ [CHR 0x22] @ ''foo'' @ [CHR 0x22, CHR 0x0A]
                   @ ''File: undefined''))"
    by (simp add: f)
  from parse_has_foo handed_has_foo a b c d e show ?thesis by blast
qed

lemma parse_dot_with_child:
  "parse ''out {. x {foo}}'' no_options =
     Inr [Str ''out '', Node [Str ''. x '', Node [Str ''foo''], Str ''''], Str '''']"
  by (simp add: parse_def)

lemma transform_dot_with_child:
  "transform 5 no_options [Str ''out '', Node [Str ''. x '', Node [Str ''foo''], Str ''''], Str '''']
     = Inr [Push (Resolve (AddToPath PathVar (Lit ''x'')))]"
  by code_simp

lemma parse_bar_foo:
  "parse ''out {bar}{foo}'' no_options =
     Inr [Str ''out '', Node [Str ''bar''], Str [], Node [Str ''foo''], Str []]"
  by (simp add: parse_def)

lemma transform_bar_foo:
  "transform 5 no_options [Str ''out '', Node [Str ''bar''], Str [], Node [Str ''foo''], Str []] =
     Inl (Error (''Not a macro: '' @ [CHR 0x22] @ ''bar'' @ [CHR 0x22, CHR 0x0A] @ ''File: undefined''))"
  by code_simp

text \<open>
  Claim C8 as stated fails at nodes that \<^verbatim>\<open>transform\<close> is not called on. The template
  \<^verbatim>\<open>{. x {foo}}\<close> has a node named \<^verbatim>\<open>foo\<close>, which is no macro, and compiles, since the
  macro \<^verbatim>\<open>.\<close> does not hand the children of its node to \<^verbatim>\<open>transform\<close>; and on
  \<^verbatim>\<open>{bar}{foo}\<close> the error names \<^verbatim>\<open>bar\<close> and not \<^verbatim>\<open>foo\<close>, since the first
  exception ends the compilation.
\<close>

theorem unknown_macro_not_reached:
  "compile example_runtime 5 ''{. x {foo}}'' no_options =
     Inr (wrapTemplate example_runtime [Push (Resolve (AddToPath PathVar (Lit ''x'')))] no_options)
   \<and> compile example_runtime 5 ''{bar}{foo}'' no_options =
     Inl (Error (''Not a macro: '' @ [CHR 0x22] @ ''bar'' @ [CHR 0x22, CHR 0x0A] @ ''File: undefined''))"
  by (simp add: compile_def parse_dot_with_child transform_dot_with_child
        parse_bar_foo transform_bar_foo)

section \<open>Nodes without a macro name\<close>

lemma takeWhile_not_space: "list_all is_space s \<Longrightarrow> takeWhile (\<lambda>c. \<not> is_space c) s = []"
  by (cases s) simp_all

lemma dropWhile_space: "list_all is_space s \<Longrightarrow> dropWhile is_space s = []"
  by (simp add: list_all_iff)

lemma parseArg_blank:
  "list_all is_space s \<Longrightarrow> parseArg (Str s # rest) = Inr ([], Str [] # rest)"
  by (simp add: parseArg_def takeWhile_not_space dropWhile_space)

text \<open>
  Claim C10, amended. On a node whose first slot has no character that is not white space,
  \<^verbatim>\<open>parseArg\<close> returns the empty string and leaves the slot empty. When such a node of a
  template with balanced braces is handed to \<^verbatim>\<open>transform\<close>, with room on the stack, and
  the caller has registered no macro under the empty name, \<^verbatim>\<open>compile\<close> throws and returns
  no render function; and unless an earlier node has thrown first, what it throws is the
  error \<^verbatim>\<open>Not a macro: ""\<close>, followed by the line with the file.
\<close>

theorem compile_blank_name:
  assumes "parse (''out '' @ input) opts = Inr root"
      and "handed opts depth root (Suc k) (Str s # rest) first"
      and "list_all is_space s"
      and "macros opts [] = None"
  shows "parseArg (Str s # rest) = Inr ([], Str [] # rest)
       \<and> (\<exists>e. compile module_runtime depth input opts = Inl e)
       \<and> (first \<longrightarrow> compile module_runtime depth input opts =
            Inl (Error (''Not a macro: '' @ [CHR 0x22, CHR 0x22, CHR 0x0A] @ ''File: ''
                        @ file_text (file_name opts))))"
proof -
  note p = parseArg_blank [OF assms(3), of rest]
  have "nativeMacros [] = None" by (simp add: nativeMacros_def)
  moreover have "object_prototype [] = None"
    by (simp add: object_prototype_def object_prototype_names_def)
  ultimately have t: "transform (Suc k) opts (Str s # rest) =
      Inl (Error (''Not a macro: '' @ [CHR 0x22, CHR 0x22, CHR 0x0A] @ ''File: ''
                  @ file_text (file_name opts)))"
    using transform_not_a_macro [OF p assms(4), of k] by simp
  from handed_propagates [OF assms(2) t] p show ?thesis
    by (auto simp: compile_fails_as_transform [OF assms(1)])
qed

lemma parse_blank:
  "parse ''out { }'' no_options = Inr [Str ''out '', Node [Str '' ''], Str []]"
  by (simp add: parse_def)

lemma handed_blank:
  "handed no_options 2 [Str ''out '', Node [Str '' ''], Str []] (Suc 0) [Str '' ''] True"
proof -
  let ?root = "[Str ''out '', Node [Str '' ''], Str []]"
  have r: "handed no_options 2 ?root (Suc 1) ?root True"
    using handed_root [of no_options 2 ?root] by (simp add: eval_nat_numeral)
  have p1: "parseArg ?root = Inr (''out'', [Str [], Node [Str '' ''], Str []])"
    by (simp add: parseArg_def is_space_def)
  have "handed no_options 2 ?root 1 [Str '' ''] (True \<and> earlier_ok (transform 1 no_options) ?root 1)"
    by (rule handed_builtin [OF r p1]) (simp_all add: no_options_fields)
  then show ?thesis by (simp add: earlier_ok_def eval_nat_numeral)
qed

theorem compile_blank_name_witness:
  "parse ''out { }'' no_options = Inr [Str ''out '', Node [Str '' ''], Str []]
   \<and> handed no_options 2 [Str ''out '', Node [Str '' ''], Str []] (Suc 0) [Str '' ''] True
   \<and> list_all is_space '' '' \<and> macros no_options [] = None
   \<and> parseArg [Str '' ''] = Inr ([], [Str []])
   \<and> compile example_runtime 2 ''{ }'' no_options =
       Inl (Error (''Not a macro: '' @ [CHR 0x22, CHR 0x22, CHR 0x0A] @ ''File: undefined''))"
proof -
  have p: "parse (''out '' @ ''{ }'') no_options = Inr [Str ''out '', Node [Str '' ''], Str []]"
    using parse_blank by simp
  have a: "list_all is_space '' ''" by (simp add: is_space_def)
  have b: "macros no_options [] = None" by (simp add: no_options_fields)
  have f: "file_text (file_name no_options) = ''undefined''"
    by (simp add: file_text_def no_options_fields)
  from compile_blank_name [OF p handed_blank a b, of example_runtime]
  have c: "parseArg [Str '' ''] = Inr ([], [Str []])
     \<and> compile example_runtime 2 ''{ }'' no_options =
       Inl (Error (''Not a macro: '' @ [CHR 0x22, CHR 0x22, CHR 0x0A] @ ''File: undefined''))"
    by (simp add: f)
  from parse_blank handed_blank a b c show ?thesis by blast
qed

lemma parse_foo_blank:
  "parse ''out {foo}{}'' no_options = Inr [Str ''out '', Node [Str ''foo''], Str [], Node [Str []], Str []]"
  by (simp add: parse_def)

lemma transform_foo_blank:
  "transform 5 no_options [Str ''out '', Node [Str ''foo''], Str [], Node [Str []], Str []] =
     Inl (Error (''Not a macro: '' @ [CHR 0x22] @ ''foo'' @ [CHR 0x22, CHR 0x0A] @ ''File: undefined''))"
  by code_simp

lemma parse_dot_blank:
  "parse ''out {. x {}}'' no_options =
     Inr [Str ''out '', Node [Str ''. x '', Node [Str []], Str []], Str []]"
  by (simp add: parse_def)

lemma transform_dot_blank:
  "transform 5 no_options [Str ''out '', Node [Str ''. x '', Node [Str []], Str []], Str []] =
     Inr [Push (Resolve (AddToPath PathVar (Lit ''x'')))]"
  by code_simp

text \<open>
  Claim C10 as stated fails at empty nodes that \<^verbatim>\<open>transform\<close> is not called on. On
  \<^verbatim>\<open>{foo}{}\<close> no macro is registered under the empty name and the error of
  \<^verbatim>\<open>compile\<close> names \<^verbatim>\<open>foo\<close>, since the first exception ends the compilation; and
  \<^verbatim>\<open>{. x {}}\<close> compiles, since the macro \<^verbatim>\<open>.\<close> does not hand the children of its node
  to \<^verbatim>\<open>transform\<close>.
\<close>

theorem blank_node_not_reached:
  "compile example_runtime 5 ''{foo}{}'' no_options =
     Inl (Error (''Not a macro: '' @ [CHR 0x22] @ ''foo'' @ [CHR 0x22, CHR 0x0A] @ ''File: undefined''))
   \<and> compile example_runtime 5 ''{. x {}}'' no_options =
     Inr (wrapTemplate example_runtime [Push (Resolve (AddToPath PathVar (Lit ''x'')))] no_options)"
  by (simp add: compile_def parse_foo_blank transform_foo_blank parse_dot_blank transform_dot_blank)

end
